theory Spec2Isabelle
  imports Complex_Main "HOL-Library.Multiset"
begin

section \<open>Cards, players and the game state\<close>

text \<open>
  The three No-Mercy programs (\<^verbatim>\<open>uno_no_mercy_sim.py\<close>, \<^verbatim>\<open>uno_no_mercy_playable.py\<close>,
  \<^verbatim>\<open>uno_no_mercy_RL.py\<close>) share one \<^verbatim>\<open>Card\<close> class: a type string
  (\<^verbatim>\<open>"number"\<close>, \<^verbatim>\<open>"action"\<close>, \<^verbatim>\<open>"wild"\<close>), an optional colour and a value that is an
  integer for number cards and a string otherwise. Python lists are modelled as HOL lists
  in the same order, so \<^verbatim>\<open>xs.pop()\<close> takes \<open>last xs\<close> and \<^verbatim>\<open>xs.append(x)\<close> is
  \<open>xs @ [x]\<close>. Card objects are only ever referenced from one list at a time, so they are
  modelled as values; assigning \<^verbatim>\<open>played.color\<close> is a record update of the played card.
\<close>

datatype color = Red | Blue | Green | Yellow

datatype card_type = Number | Action | Wild

datatype card_value =
    Num int | Skip | SkipAll | Reverse | Draw2 | Draw4 | DiscardColor
  | ReverseDraw4 | Draw6 | Draw10 | ColorRoulette

record card =
  ctype :: card_type
  color :: "color option"
  cvalue :: card_value

definition Card :: "card_type \<Rightarrow> color option \<Rightarrow> card_value \<Rightarrow> card" where
  "Card t c v = \<lparr>ctype = t, color = c, cvalue = v\<rparr>"

record player =
  pid :: nat
  hand :: "card list"
  is_human :: bool

text \<open>
  The game object. The simulator has no \<^verbatim>\<open>game_over\<close> field and its players have no
  \<^verbatim>\<open>is_human\<close> field; both stay \<open>False\<close> there. \<^verbatim>\<open>current_player_index\<close> is always
  the result of a \<^verbatim>\<open>% len(self.players)\<close> or the constant 0, hence a natural number;
  \<^verbatim>\<open>direction\<close> is an integer that starts at 1 and is only ever multiplied by -1.
\<close>

record game =
  players :: "player list"
  deck :: "card list"
  discard_pile :: "card list"
  current_player_index :: nat
  direction :: int
  turn_count :: nat
  game_over :: bool
  pending_draw :: nat
  pending_draw_type :: "card_value option"
  winner_id :: "nat option"
  mercy_rule :: bool

datatype error = IndexError | ValueError | ZeroDivisionError | AttributeError | KeyError | EOFError

subsection \<open>Player.draw\<close>

text \<open>
  \<^verbatim>\<open>Player.draw(deck, count)\<close> is the same in all four programs: \<open>count\<close> times, if the deck
  is not empty, pop its last card and append it to the hand. The result is the new hand,
  the new deck and the list of drawn cards.
\<close>

fun draw :: "'a list \<Rightarrow> 'a list \<Rightarrow> nat \<Rightarrow> 'a list \<times> 'a list \<times> 'a list" where
  "draw h d 0 = (h, d, [])"
| "draw h d (Suc n) =
     (if d \<noteq> [] then
        (case draw (h @ [last d]) (butlast d) n of (h', d', drawn) \<Rightarrow> (h', d', last d # drawn))
      else draw h d n)"

subsection \<open>Legality checks\<close>

text \<open>\<^verbatim>\<open>Player.is_valid_choice\<close> of the playable and the RL program.\<close>

definition is_valid_choice :: "card \<Rightarrow> card \<Rightarrow> bool" where
  "is_valid_choice c top_card =
     (if ctype c = Wild then True
      else if ctype top_card = Wild \<and> color top_card = None then True
      else (let active_color = color top_card in
            if active_color \<noteq> None then color c = active_color
            else (color c = color top_card \<or> cvalue c = cvalue top_card)))"

text \<open>The test inside the loop of \<^verbatim>\<open>find_best_card\<close> and \<^verbatim>\<open>has_playable_card\<close> of the
  playable and the RL program.\<close>

definition pl_playable :: "card \<Rightarrow> card \<Rightarrow> bool" where
  "pl_playable top_card c =
     (let active_color = color top_card in
      if ctype c = Wild then True
      else if active_color \<noteq> None then (color c = active_color \<or> cvalue c = cvalue top_card)
      else (color c = color top_card \<or> cvalue c = cvalue top_card))"

fun has_playable_card :: "card list \<Rightarrow> card \<Rightarrow> bool" where
  "has_playable_card [] top_card = False"
| "has_playable_card (c # cs) top_card =
     (if pl_playable top_card c then True else has_playable_card cs top_card)"

text \<open>The list comprehension of the simulator's \<^verbatim>\<open>find_best_card\<close>.\<close>

definition sim_playable :: "card \<Rightarrow> card \<Rightarrow> bool" where
  "sim_playable top_card c =
     (let is_wild_with_no_color = (ctype top_card = Wild \<and> color top_card = None);
          active_color = color top_card in
      ctype c = Wild \<or> is_wild_with_no_color
      \<or> (active_color \<noteq> None \<and> (color c = active_color \<or> cvalue c = cvalue top_card))
      \<or> (active_color = None \<and> (color c = color top_card \<or> cvalue c = cvalue top_card)))"

text \<open>
  The scoring loop, shared by the three programs: the first card with the strictly highest
  score wins; \<open>None\<close> stands for the initial \<^verbatim>\<open>-float('inf')\<close> with no card.
\<close>

definition card_score :: "card list \<Rightarrow> card \<Rightarrow> card list \<Rightarrow> card \<Rightarrow> rat" where
  "card_score hnd top_card non_wild c =
     (if ctype c = Wild then
        (if non_wild \<noteq> [] then 1 / 2 else 1) - (if cvalue c = ColorRoulette then 1 / 2 else 0)
      else
        (if color top_card \<noteq> None \<and> color c = color top_card then 10 else 0)
        + (if cvalue c = cvalue top_card then 5 else 0)
        + (if ctype c = Action then
             (if cvalue c = Skip then 3
              else if cvalue c = Reverse then 2
              else if cvalue c = DiscardColor then 2
              else if cvalue c = Draw2 \<or> cvalue c = Draw4 then
                (if length non_wild > 1 then 1 else 3)
              else 0)
           else 0)
        + (if ctype c = Number then
             (if cvalue c = Num 0 then (if length hnd > 5 then 5 else 2) else 0)
             + (if cvalue c = Num 7 then (if length hnd > 5 then 5 else 2) else 0)
           else 0))"

fun best_loop :: "(card \<Rightarrow> rat) \<Rightarrow> card list \<Rightarrow> (rat \<times> card) option \<Rightarrow> (rat \<times> card) option" where
  "best_loop sc [] best = best"
| "best_loop sc (c # cs) best =
     (case best of
        None \<Rightarrow> best_loop sc cs (Some (sc c, c))
      | Some (best_score, best_card) \<Rightarrow>
          if sc c > best_score then best_loop sc cs (Some (sc c, c)) else best_loop sc cs best)"

definition find_best_with :: "(card \<Rightarrow> card \<Rightarrow> bool) \<Rightarrow> card list \<Rightarrow> card option \<Rightarrow> card option" where
  "find_best_with ok hnd top_opt =
     (case top_opt of
        None \<Rightarrow> (case hnd of [] \<Rightarrow> None | c # _ \<Rightarrow> Some c)
      | Some top_card \<Rightarrow>
          (let playable = filter (ok top_card) hnd;
               non_wild = filter (\<lambda>c. ctype c \<noteq> Wild) playable
           in map_option snd (best_loop (card_score hnd top_card non_wild) playable None)))"

definition sim_find_best_card :: "card list \<Rightarrow> card option \<Rightarrow> card option" where
  "sim_find_best_card = find_best_with sim_playable"

definition pl_find_best_card :: "card list \<Rightarrow> card option \<Rightarrow> card option" where
  "pl_find_best_card = find_best_with pl_playable"

subsection \<open>Helpers shared by the No-Mercy programs\<close>

text \<open>\<^verbatim>\<open>a % len(self.players)\<close>: Python's floor modulus, which raises on an empty ring.\<close>

definition ring_index :: "int \<Rightarrow> nat \<Rightarrow> error + nat" where
  "ring_index a n = (if n = 0 then Inl ZeroDivisionError else Inr (nat (a mod int n)))"

definition set_hand :: "player list \<Rightarrow> nat \<Rightarrow> card list \<Rightarrow> player list" where
  "set_hand ps i h = ps[i := (ps ! i)\<lparr>hand := h\<rparr>]"

text \<open>\<^verbatim>\<open>Player.play_card(card)\<close>: pop the first hand card with the same three fields;
  \<open>None\<close> when there is none.\<close>

fun play_card :: "card list \<Rightarrow> card \<Rightarrow> (card \<times> card list) option" where
  "play_card [] crd = None"
| "play_card (c # cs) crd =
     (if ctype c = ctype crd \<and> color c = color crd \<and> cvalue c = cvalue crd then Some (c, cs)
      else (case play_card cs crd of None \<Rightarrow> None | Some (p, r) \<Rightarrow> Some (p, c # r)))"

text \<open>
  The colour choice of the scripted players: count the coloured hand cards per colour in a
  dictionary (insertion order = order of first appearance), take the first colour with the
  highest count, \<^verbatim>\<open>"Red"\<close> when the dictionary is empty.
\<close>

fun bump :: "color \<Rightarrow> (color \<times> nat) list \<Rightarrow> (color \<times> nat) list" where
  "bump k [] = [(k, 1)]"
| "bump k ((k', n) # r) = (if k = k' then (k', n + 1) # r else (k', n) # bump k r)"

definition color_counts :: "card list \<Rightarrow> (color \<times> nat) list" where
  "color_counts hnd = foldl (\<lambda>acc c. case color c of None \<Rightarrow> acc | Some k \<Rightarrow> bump k acc) [] hnd"

fun max_by_count :: "(color \<times> nat) \<Rightarrow> (color \<times> nat) list \<Rightarrow> (color \<times> nat)" where
  "max_by_count best [] = best"
| "max_by_count best (x # xs) =
     (if snd x > snd best then max_by_count x xs else max_by_count best xs)"

definition choose_color_ai :: "card list \<Rightarrow> color" where
  "choose_color_ai hnd = (case color_counts hnd of [] \<Rightarrow> Red | x # xs \<Rightarrow> fst (max_by_count x xs))"

definition recolor :: "card list \<Rightarrow> card \<Rightarrow> card" where
  "recolor hnd played =
     (if ctype played = Wild then played\<lparr>color := Some (choose_color_ai hnd)\<rparr> else played)"

definition get_top_card :: "game \<Rightarrow> card option" where
  "get_top_card g = (if discard_pile g \<noteq> [] then Some (last (discard_pile g)) else None)"

text \<open>The stacking table and the penalties, as the dictionaries of the source.\<close>

definition allowed_stacking :: "card_value option \<Rightarrow> card_value list" where
  "allowed_stacking t =
     (if t = Some Draw2 then [Draw2, Draw4, Draw6, Draw10]
      else if t = Some Draw4 then [Draw4, Draw6, Draw10]
      else if t = Some Draw6 then [Draw6, Draw10]
      else if t = Some Draw10 then [Draw10]
      else [])"

definition penalty_mapping :: "card_value \<Rightarrow> nat option" where
  "penalty_mapping v =
     (if v = Draw2 then Some 2 else if v = Draw4 then Some 4
      else if v = Draw6 then Some 6 else if v = Draw10 then Some 10 else None)"

definition is_stackable :: "card_value list \<Rightarrow> card \<Rightarrow> bool" where
  "is_stackable allowed c =
     (((ctype c = Action \<and> (cvalue c = Draw2 \<or> cvalue c = Draw4))
       \<or> (ctype c = Wild \<and> (cvalue c = Draw6 \<or> cvalue c = Draw10)))
      \<and> cvalue c \<in> set allowed)"

definition start_pending :: "game \<Rightarrow> card_value \<Rightarrow> nat \<Rightarrow> game" where
  "start_pending g v p =
     (if pending_draw g = 0 then g\<lparr>pending_draw := p, pending_draw_type := Some v\<rparr> else g)"

text \<open>The \<^verbatim>\<open>DiscardColor\<close> branch, the same text in the three programs.\<close>

definition discard_color_effect :: "game \<Rightarrow> card \<Rightarrow> error + game" where
  "discard_color_effect g crd =
     (let i = current_player_index g in
      if i \<ge> length (players g) then Inl IndexError
      else
        (let active_player = players g ! i;
             discard_color = color crd;
             discarded = filter (\<lambda>c. color c = discard_color) (hand active_player)
         in Inr (g\<lparr>players := set_hand (players g) i
                        (filter (\<lambda>c. color c \<noteq> discard_color) (hand active_player)),
                   discard_pile := discard_pile g @ discarded\<rparr>)))"

text \<open>The hand rotation of value 0 (\<^verbatim>\<open>switch_hands_in_cycle\<close> in the simulator,
  \<^verbatim>\<open>switch_hands_cycle\<close> in the playable and RL programs): the hands are snapshotted, then
  player \<open>i\<close> receives the snapshot entry \<open>(i - direction) % n\<close>.\<close>

definition switch_hands_in_cycle :: "game \<Rightarrow> game" where
  "switch_hands_in_cycle g =
     (let n = length (players g) in
      if n \<le> 1 then g
      else
        (let temp_hands = map hand (players g) in
         g\<lparr>players :=
             map (\<lambda>i. (players g ! i)\<lparr>hand := temp_hands ! nat ((int i - direction g) mod int n)\<rparr>)
               [0..<n]\<rparr>))"

section \<open>The simulator (\<^verbatim>\<open>uno_no_mercy_sim.py\<close>)\<close>

text \<open>The \<^verbatim>\<open>ColorRoulette\<close> loop of the simulator draws through \<^verbatim>\<open>Player.draw(deck, 1)\<close>.\<close>

function sim_color_roulette :: "color option \<Rightarrow> card list \<Rightarrow> card list \<Rightarrow> card list \<times> card list" where
  "sim_color_roulette chosen_color h d =
     (if d = [] then (h, d)
      else (case draw h d 1 of (h', d', drawn_cards) \<Rightarrow>
              if drawn_cards \<noteq> [] \<and> color (hd drawn_cards) = chosen_color then (h', d')
              else sim_color_roulette chosen_color h' d'))"
  by pat_completeness auto
termination
  by (relation "measure (\<lambda>(c, h, d). length d)") (auto split: if_splits)

declare sim_color_roulette.simps [simp del]

definition sim_handle_card_effects :: "game \<Rightarrow> card \<Rightarrow> error + game" where
  "sim_handle_card_effects g crd =
     (let i = current_player_index g; n = length (players g) in
      if ctype crd = Action then
        (if cvalue crd = Skip then
           (case ring_index (int i + direction g) n of
              Inl e \<Rightarrow> Inl e
            | Inr j \<Rightarrow> Inr (g\<lparr>current_player_index := j\<rparr>))
         else if cvalue crd = SkipAll then
           (if i \<ge> n then Inl IndexError
            else (case ring_index (int i - direction g) n of
                    Inl e \<Rightarrow> Inl e
                  | Inr j \<Rightarrow> Inr (g\<lparr>current_player_index := j\<rparr>)))
         else if cvalue crd = Reverse then Inr (g\<lparr>direction := direction g * (- 1)\<rparr>)
         else if cvalue crd = Draw2 then Inr (start_pending g Draw2 2)
         else if cvalue crd = Draw4 then Inr (start_pending g Draw4 4)
         else if cvalue crd = DiscardColor then discard_color_effect g crd
         else Inr g)
      else if ctype crd = Wild then
        (if cvalue crd = ReverseDraw4 then
           (case (if direction g > 0 then ring_index (int i - direction g) n
                  else ring_index (int i + 1) n) of
              Inl e \<Rightarrow> Inl e
            | Inr target_index \<Rightarrow>
                (case draw (hand (players g ! target_index)) (deck g) 4 of
                   (h', d', drawn) \<Rightarrow>
                     Inr (g\<lparr>players := set_hand (players g) target_index h', deck := d',
                            direction := direction g * (- 1)\<rparr>)))
         else if cvalue crd = Draw6 then Inr (start_pending g Draw6 6)
         else if cvalue crd = Draw10 then Inr (start_pending g Draw10 10)
         else if cvalue crd = ColorRoulette then
           (case ring_index (int i + direction g) n of
              Inl e \<Rightarrow> Inl e
            | Inr next_player_index \<Rightarrow>
                (case sim_color_roulette (color crd) (hand (players g ! next_player_index)) (deck g) of
                   (h', d') \<Rightarrow>
                     Inr (g\<lparr>players := set_hand (players g) next_player_index h', deck := d'\<rparr>)))
         else Inr g)
      else Inr g)"

text \<open>
  \<^verbatim>\<open>switch_hands_with_choice(current_player)\<close>: scan the ring for the first player with
  another id and strictly the fewest cards below the current player's count, and swap the
  two hands. Players are addressed by their position; \<open>i\<close> is the current player's.
\<close>

definition choice_step :: "player list \<Rightarrow> player \<Rightarrow> nat option \<Rightarrow> nat \<Rightarrow> nat option" where
  "choice_step ps cur target j =
     (let p = ps ! j in
      if pid p \<noteq> pid cur \<and> length (hand p) < length (hand cur) then
        (case target of
           None \<Rightarrow> Some j
         | Some t \<Rightarrow> if length (hand p) < length (hand (ps ! t)) then Some j else target)
      else target)"

definition swap_hands :: "player list \<Rightarrow> nat \<Rightarrow> nat \<Rightarrow> player list" where
  "swap_hands ps i t = (ps[i := (ps ! i)\<lparr>hand := hand (ps ! t)\<rparr>])[t := (ps ! t)\<lparr>hand := hand (ps ! i)\<rparr>]"

definition sim_switch_hands_with_choice :: "game \<Rightarrow> nat \<Rightarrow> game" where
  "sim_switch_hands_with_choice g i =
     (let ps = players g in
      case foldl (choice_step ps (ps ! i)) None [0..<length ps] of
        None \<Rightarrow> g
      | Some t \<Rightarrow> g\<lparr>players := swap_hands ps i t\<rparr>)"

text \<open>The branch of \<^verbatim>\<open>play_turn\<close> for an outstanding pending draw; it returns before the
  mercy and win checks.\<close>

definition sim_pending_turn :: "game \<Rightarrow> nat \<Rightarrow> error + (bool \<times> game)" where
  "sim_pending_turn g i =
     (let player = players g ! i;
          allowed_responses = allowed_stacking (pending_draw_type g);
          stackable_cards = filter (is_stackable allowed_responses) (hand player)
      in case stackable_cards of
           card_to_play # _ \<Rightarrow>
             (case play_card (hand player) card_to_play of
                None \<Rightarrow> Inl AttributeError
              | Some (popped, h') \<Rightarrow>
                  (let played_card = recolor h' popped in
                   case penalty_mapping (cvalue played_card) of
                     None \<Rightarrow> Inl KeyError
                   | Some p \<Rightarrow>
                       (case ring_index (int i + direction g) (length (players g)) of
                          Inl e \<Rightarrow> Inl e
                        | Inr j \<Rightarrow>
                            Inr (False,
                                 g\<lparr>players := set_hand (players g) i h',
                                   discard_pile := discard_pile g @ [played_card],
                                   pending_draw := pending_draw g + p,
                                   pending_draw_type := Some (cvalue played_card),
                                   current_player_index := j,
                                   turn_count := turn_count g + 1\<rparr>))))
         | [] \<Rightarrow>
             (case draw (hand player) (deck g) (pending_draw g) of
                (h', d', drawn_cards) \<Rightarrow>
                  (case ring_index (int i + direction g) (length (players g)) of
                     Inl e \<Rightarrow> Inl e
                   | Inr j \<Rightarrow>
                       Inr (False,
                            g\<lparr>players := set_hand (players g) i h', deck := d',
                              pending_draw := 0, pending_draw_type := None,
                              current_player_index := j,
                              turn_count := turn_count g + 1\<rparr>))))"

text \<open>
  The normal turn up to the mercy check: play the best card (the popped card is the object
  \<^verbatim>\<open>find_best_card\<close> returned, since both take the first hand card with these fields), or
  draw one card.
\<close>

definition sim_turn_actions :: "game \<Rightarrow> nat \<Rightarrow> error + game" where
  "sim_turn_actions g i =
     (let player = players g ! i in
      case sim_find_best_card (hand player) (get_top_card g) of
        Some best_card \<Rightarrow>
          (case play_card (hand player) best_card of
             None \<Rightarrow> Inl AttributeError
           | Some (popped, h') \<Rightarrow>
               (let played_card = recolor h' popped;
                    g1 = g\<lparr>players := set_hand (players g) i h',
                           discard_pile := discard_pile g @ [played_card]\<rparr>
                in case sim_handle_card_effects g1 played_card of
                     Inl e \<Rightarrow> Inl e
                   | Inr g2 \<Rightarrow>
                       Inr (if ctype played_card = Number then
                              (if cvalue played_card = Num 0 then switch_hands_in_cycle g2
                               else if cvalue played_card = Num 7 then sim_switch_hands_with_choice g2 i
                               else g2)
                            else g2)))
      | None \<Rightarrow>
          (case draw (hand player) (deck g) 1 of
             (h', d', drawn_cards) \<Rightarrow> Inr (g\<lparr>players := set_hand (players g) i h', deck := d'\<rparr>)))"

definition pop_at :: "'a list \<Rightarrow> nat \<Rightarrow> 'a list" where
  "pop_at xs k = take k xs @ drop (Suc k) xs"

text \<open>The mercy check, the pointer advance, the turn counter and the win check that end a
  normal turn; \<open>i\<close> is the position of the player who acted.\<close>

definition sim_turn_end :: "game \<Rightarrow> nat \<Rightarrow> error + (bool \<times> game)" where
  "sim_turn_end g i =
     (let player = players g ! i;
          idx = current_player_index g
      in case (if mercy_rule g \<and> length (hand player) \<ge> 25 then
                 (if idx \<ge> length (players g) then Inl IndexError
                  else (let ps = pop_at (players g) idx in
                        Inr (g\<lparr>players := ps,
                               current_player_index := (if idx \<ge> length ps then 0 else idx)\<rparr>)))
               else (case ring_index (int idx + direction g) (length (players g)) of
                       Inl e \<Rightarrow> Inl e
                     | Inr j \<Rightarrow> Inr (g\<lparr>current_player_index := j\<rparr>))) of
           Inl e \<Rightarrow> Inl e
         | Inr g' \<Rightarrow>
             (let g'' = g'\<lparr>turn_count := turn_count g' + 1\<rparr> in
              if length (hand player) = 0 then Inr (True, g''\<lparr>winner_id := Some (pid player)\<rparr>)
              else Inr (False, g'')))"

definition sim_play_turn :: "game \<Rightarrow> error + (bool \<times> game)" where
  "sim_play_turn g =
     (if players g = [] then Inl ValueError
      else if current_player_index g \<ge> length (players g) then Inl IndexError
      else
        (let i = current_player_index g in
         if pending_draw g > 0 then sim_pending_turn g i
         else (case sim_turn_actions g i of
                 Inl e \<Rightarrow> Inl e
               | Inr g' \<Rightarrow> sim_turn_end g' i)))"

text \<open>
  \<^verbatim>\<open>check_and_recycle_deck\<close>, run by \<^verbatim>\<open>start_game\<close> before every turn. \<^verbatim>\<open>random.shuffle\<close> is
  the parameter \<open>shuffle\<close>.
\<close>

definition sim_check_and_recycle_deck :: "(card list \<Rightarrow> card list) \<Rightarrow> game \<Rightarrow> error + game" where
  "sim_check_and_recycle_deck shuffle g =
     (if length (deck g) < 5 then
        (if discard_pile g = [] then Inl IndexError
         else Inr (g\<lparr>deck := shuffle (butlast (discard_pile g)),
                     discard_pile := [last (discard_pile g)]\<rparr>))
      else Inr g)"

section \<open>The playable and the RL program\<close>

text \<open>
  \<^verbatim>\<open>uno_no_mercy_playable.py\<close> and \<^verbatim>\<open>uno_no_mercy_RL.py\<close> have the same
  \<^verbatim>\<open>handle_card_effects\<close>, \<^verbatim>\<open>check_winner\<close>, \<^verbatim>\<open>advance_turn\<close> and
  \<^verbatim>\<open>update_pending_draw\<close> (the playable one prints in addition). Their \<^verbatim>\<open>ColorRoulette\<close>
  loop pops the deck itself.
\<close>

function pl_color_roulette :: "color option \<Rightarrow> card list \<Rightarrow> card list \<Rightarrow> card list \<times> card list" where
  "pl_color_roulette chosen_color h d =
     (if d = [] then (h, d)
      else if color (last d) = chosen_color then (h @ [last d], butlast d)
      else pl_color_roulette chosen_color (h @ [last d]) (butlast d))"
  by pat_completeness auto
termination
  by (relation "measure (\<lambda>(c, h, d). length d)") auto

declare pl_color_roulette.simps [simp del]

definition pl_handle_card_effects :: "game \<Rightarrow> card \<Rightarrow> error + game" where
  "pl_handle_card_effects g crd =
     (let i = current_player_index g; n = length (players g) in
      if ctype crd = Action then
        (if cvalue crd = Skip then
           (case ring_index (int i + direction g) n of
              Inl e \<Rightarrow> Inl e
            | Inr j \<Rightarrow> Inr (g\<lparr>current_player_index := j\<rparr>))
         else if cvalue crd = SkipAll then
           (case ring_index (int i - direction g) n of
              Inl e \<Rightarrow> Inl e
            | Inr j \<Rightarrow> Inr (g\<lparr>current_player_index := j\<rparr>))
         else if cvalue crd = Reverse then Inr (g\<lparr>direction := direction g * (- 1)\<rparr>)
         else if cvalue crd = Draw2 then Inr (start_pending g Draw2 2)
         else if cvalue crd = Draw4 then Inr (start_pending g Draw4 4)
         else if cvalue crd = DiscardColor then discard_color_effect g crd
         else Inr g)
      else if ctype crd = Wild then
        (if cvalue crd = ReverseDraw4 then
           (case ring_index (int i - direction g) n of
              Inl e \<Rightarrow> Inl e
            | Inr target_idx \<Rightarrow>
                (case draw (hand (players g ! target_idx)) (deck g) 4 of
                   (h', d', drawn) \<Rightarrow>
                     Inr (g\<lparr>players := set_hand (players g) target_idx h', deck := d',
                            direction := direction g * (- 1)\<rparr>)))
         else if cvalue crd = Draw6 then Inr (start_pending g Draw6 6)
         else if cvalue crd = Draw10 then Inr (start_pending g Draw10 10)
         else if cvalue crd = ColorRoulette then
           (case ring_index (int i + direction g) n of
              Inl e \<Rightarrow> Inl e
            | Inr next_idx \<Rightarrow>
                (case pl_color_roulette (color crd) (hand (players g ! next_idx)) (deck g) of
                   (h', d') \<Rightarrow>
                     Inr (g\<lparr>players := set_hand (players g) next_idx h', deck := d'\<rparr>)))
         else Inr g)
      else Inr g)"

definition rl_handle_card_effects :: "game \<Rightarrow> card \<Rightarrow> error + game" where
  "rl_handle_card_effects = pl_handle_card_effects"

definition advance_turn :: "game \<Rightarrow> error + game" where
  "advance_turn g =
     (case ring_index (int (current_player_index g) + direction g) (length (players g)) of
        Inl e \<Rightarrow> Inl e
      | Inr j \<Rightarrow> Inr (g\<lparr>current_player_index := j, turn_count := turn_count g + 1\<rparr>))"

definition update_pending_draw :: "game \<Rightarrow> card_value \<Rightarrow> game" where
  "update_pending_draw g v =
     g\<lparr>pending_draw := pending_draw g + (case penalty_mapping v of None \<Rightarrow> 0 | Some p \<Rightarrow> p),
       pending_draw_type := Some v\<rparr>"

text \<open>\<^verbatim>\<open>check_winner(player)\<close>; \<open>i\<close> is the position of \<open>player\<close> in the ring.\<close>

definition check_winner :: "game \<Rightarrow> nat \<Rightarrow> error + (bool \<times> game)" where
  "check_winner g i =
     (let player = players g ! i in
      if length (hand player) = 0 then
        Inr (True, g\<lparr>winner_id := Some (pid player), game_over := True\<rparr>)
      else if mercy_rule g \<and> length (hand player) > 25 then
        (let ps = filter (\<lambda>p. pid p \<noteq> pid player) (players g) in
         case ring_index (int (current_player_index g)) (length ps) of
           Inl e \<Rightarrow> Inl e
         | Inr j \<Rightarrow>
             (let g' = g\<lparr>players := ps, current_player_index := j\<rparr> in
              if length ps = 1 then
                Inr (True, g'\<lparr>winner_id := Some (pid (ps ! 0)), game_over := True\<rparr>)
              else Inr (False, g')))
      else Inr (False, g))"

text \<open>
  Console input. A line typed by the human is one of the letters the prompts look at
  (compared case-insensitively by the source), something \<^verbatim>\<open>int()\<close> parses, or anything
  else. \<^verbatim>\<open>input()\<close> on an exhausted console raises \<^verbatim>\<open>EOFError\<close>.
\<close>

datatype line = LD | LS | LY | LN | LR | LB | LG | LInt int | LOther

fun get_color_choice :: "line list \<Rightarrow> error + (color \<times> line list)" where
  "get_color_choice [] = Inl EOFError"
| "get_color_choice (l # ls) =
     (if l = LR then Inr (Red, ls)
      else if l = LB then Inr (Blue, ls)
      else if l = LG then Inr (Green, ls)
      else if l = LY then Inr (Yellow, ls)
      else get_color_choice ls)"

text \<open>\<^verbatim>\<open>handle_human_stack_choice(player, stackable)\<close>: the result is the played card (or
  \<open>None\<close> when the human typed \<^verbatim>\<open>d\<close>), the game and the rest of the console input.\<close>

fun handle_human_stack_choice ::
  "game \<Rightarrow> nat \<Rightarrow> card list \<Rightarrow> line list \<Rightarrow> error + (card option \<times> game \<times> line list)" where
  "handle_human_stack_choice g i stackable [] = Inl EOFError"
| "handle_human_stack_choice g i stackable (choice # ls) =
     (if choice = LD then
        (case draw (hand (players g ! i)) (deck g) (pending_draw g) of
           (h', d', drawn) \<Rightarrow>
             Inr (None, g\<lparr>players := set_hand (players g) i h', deck := d', pending_draw := 0\<rparr>, ls))
      else
        (case choice of
           LInt k \<Rightarrow>
             (let idx = k - 1 in
              if 0 \<le> idx \<and> idx < int (length stackable) then
                (case play_card (hand (players g ! i)) (stackable ! nat idx) of
                   None \<Rightarrow> Inl AttributeError
                 | Some (played, h') \<Rightarrow>
                     (if ctype played = Wild then
                        (case get_color_choice ls of
                           Inl e \<Rightarrow> Inl e
                         | Inr (c, ls') \<Rightarrow>
                             Inr (Some (played\<lparr>color := Some c\<rparr>),
                                  g\<lparr>players := set_hand (players g) i h',
                                    discard_pile := discard_pile g @ [played\<lparr>color := Some c\<rparr>]\<rparr>,
                                  ls'))
                      else
                        Inr (Some played,
                             g\<lparr>players := set_hand (players g) i h',
                               discard_pile := discard_pile g @ [played]\<rparr>,
                             ls)))
              else handle_human_stack_choice g i stackable ls)
         | _ \<Rightarrow> handle_human_stack_choice g i stackable ls))"

text \<open>\<^verbatim>\<open>handle_pending_draw(player, top_card)\<close> of the playable program; it always returns
  \<^verbatim>\<open>False\<close>.\<close>

definition pl_handle_pending_draw :: "game \<Rightarrow> nat \<Rightarrow> line list \<Rightarrow> error + (bool \<times> game \<times> line list)" where
  "pl_handle_pending_draw g i inp =
     (let player = players g ! i;
          allowed = allowed_stacking (pending_draw_type g);
          stackable = filter (is_stackable allowed) (hand player)
      in
      if stackable \<noteq> [] then
        (if is_human player then
           (case handle_human_stack_choice g i stackable inp of
              Inl e \<Rightarrow> Inl e
            | Inr (played, g1, inp') \<Rightarrow>
                (case advance_turn g1 of Inl e \<Rightarrow> Inl e | Inr g2 \<Rightarrow> Inr (False, g2, inp')))
         else
           (let h' = (case play_card (hand player) (hd stackable) of
                        None \<Rightarrow> hand player | Some (popped, r) \<Rightarrow> r);
                played = recolor h' (hd stackable);
                g1 = update_pending_draw
                       (g\<lparr>players := set_hand (players g) i h',
                          discard_pile := discard_pile g @ [played]\<rparr>) (cvalue played)
            in case advance_turn g1 of Inl e \<Rightarrow> Inl e | Inr g2 \<Rightarrow> Inr (False, g2, inp)))
      else
        (case draw (hand player) (deck g) (pending_draw g) of
           (h', d', drawn) \<Rightarrow>
             (case advance_turn (g\<lparr>players := set_hand (players g) i h', deck := d',
                                   pending_draw := 0, pending_draw_type := None\<rparr>) of
                Inl e \<Rightarrow> Inl e
              | Inr g2 \<Rightarrow> Inr (False, g2, inp))))"

section \<open>The classic game (\<^verbatim>\<open>uno_vanilla_playable.py\<close>)\<close>

text \<open>
  The classic program has its own \<^verbatim>\<open>Card\<close> class: a colour string, which is \<^verbatim>\<open>"Wild"\<close> for
  a wild card until a colour is chosen, and a value. Only the turn of a scripted player is
  modelled; the human prompts are not.
\<close>

datatype vcolor = VRed | VBlue | VGreen | VYellow | VWild

datatype vvalue = VNum int | VSkip | VReverse | VDraw2 | VWildCard | VWildDraw4

record vcard =
  vcolor :: vcolor
  vvalue :: vvalue

record vplayer =
  vid :: nat
  vhand :: "vcard list"

record vgame =
  vplayers :: "vplayer list"
  vdeck :: "vcard list"
  vdiscard_pile :: "vcard list"
  vcurrent_player_index :: nat
  vdirection :: int
  vgame_over :: bool
  vwinner :: "nat option"
  vpending_draw :: nat

definition is_wild :: "vcard \<Rightarrow> bool" where
  "is_wild c = (vcolor c = VWild)"

definition can_play :: "vcard \<Rightarrow> vcard option \<Rightarrow> error + bool" where
  "can_play c top_card =
     (if is_wild c then Inr True
      else (case top_card of
              None \<Rightarrow> Inl AttributeError
            | Some t \<Rightarrow> Inr (vcolor c = vcolor t \<or> vvalue c = vvalue t)))"

fun find_playable_cards :: "vcard list \<Rightarrow> vcard option \<Rightarrow> error + vcard list" where
  "find_playable_cards [] top_card = Inr []"
| "find_playable_cards (c # cs) top_card =
     (case can_play c top_card of
        Inl e \<Rightarrow> Inl e
      | Inr b \<Rightarrow>
          (case find_playable_cards cs top_card of
             Inl e \<Rightarrow> Inl e
           | Inr r \<Rightarrow> Inr (if b then c # r else r)))"

definition next_player :: "vgame \<Rightarrow> error + vgame" where
  "next_player g =
     (case ring_index (int (vcurrent_player_index g) + vdirection g) (length (vplayers g)) of
        Inl e \<Rightarrow> Inl e
      | Inr j \<Rightarrow> Inr (g\<lparr>vcurrent_player_index := j\<rparr>))"

fun vbump :: "vcolor \<Rightarrow> (vcolor \<times> nat) list \<Rightarrow> (vcolor \<times> nat) list" where
  "vbump k [] = [(k, 1)]"
| "vbump k ((k', n) # r) = (if k = k' then (k', n + 1) # r else (k', n) # vbump k r)"

fun vmax_by_count :: "(vcolor \<times> nat) \<Rightarrow> (vcolor \<times> nat) list \<Rightarrow> (vcolor \<times> nat)" where
  "vmax_by_count best [] = best"
| "vmax_by_count best (x # xs) =
     (if snd x > snd best then vmax_by_count x xs else vmax_by_count best xs)"

text \<open>\<^verbatim>\<open>choose_color(wild_card)\<close> for a scripted player; the wild card is the top of the
  discard pile. \<open>rnd\<close> is the result of \<^verbatim>\<open>random.choice\<close>.\<close>

definition choose_color :: "vcolor \<Rightarrow> vgame \<Rightarrow> error + vgame" where
  "choose_color rnd g =
     (let wild_card = last (vdiscard_pile g) in
      if vcolor wild_card \<noteq> VWild then Inr g
      else if vcurrent_player_index g \<ge> length (vplayers g) then Inl IndexError
      else
        (let current_player = vplayers g ! vcurrent_player_index g;
             color_counts = foldl (\<lambda>acc c. if vcolor c \<noteq> VWild then vbump (vcolor c) acc else acc)
                              [] (vhand current_player);
             chosen_color = (case color_counts of [] \<Rightarrow> rnd | x # xs \<Rightarrow> fst (vmax_by_count x xs))
         in Inr (g\<lparr>vdiscard_pile := butlast (vdiscard_pile g) @ [wild_card\<lparr>vcolor := chosen_color\<rparr>]\<rparr>)))"

text \<open>\<^verbatim>\<open>handle_card_effect(card)\<close>; the card has just been appended to the discard pile.\<close>

definition handle_card_effect :: "vcolor \<Rightarrow> vgame \<Rightarrow> vcard \<Rightarrow> error + vgame" where
  "handle_card_effect rnd g crd =
     (if vvalue crd = VSkip then
        (case next_player g of Inl e \<Rightarrow> Inl e | Inr g1 \<Rightarrow> next_player g1)
      else if vvalue crd = VReverse then
        (let g1 = g\<lparr>vdirection := vdirection g * (- 1)\<rparr> in
         if length (vplayers g1) = 2 then next_player g1 else Inr g1)
      else if vvalue crd = VDraw2 then Inr (g\<lparr>vpending_draw := 2\<rparr>)
      else if vvalue crd = VWildDraw4 then
        (let g1 = g\<lparr>vpending_draw := 4\<rparr> in
         if is_wild crd then choose_color rnd g1 else Inr g1)
      else if is_wild crd then choose_color rnd g
      else Inr g)"

definition replenish_deck :: "(vcard list \<Rightarrow> vcard list) \<Rightarrow> vgame \<Rightarrow> error + vgame" where
  "replenish_deck shuffle g =
     (if length (vdeck g) < 4 then
        (if vdiscard_pile g = [] then Inl IndexError
         else Inr (g\<lparr>vdeck := shuffle (butlast (vdiscard_pile g)),
                     vdiscard_pile := [last (vdiscard_pile g)]\<rparr>))
      else Inr g)"

definition vset_hand :: "vplayer list \<Rightarrow> nat \<Rightarrow> vcard list \<Rightarrow> vplayer list" where
  "vset_hand ps i h = ps[i := (ps ! i)\<lparr>vhand := h\<rparr>]"

text \<open>\<^verbatim>\<open>handle_ai_turn(player, playable_cards, top_card)\<close>: the played card, if any, and the
  game with the player's hand and the deck updated. \<^verbatim>\<open>player.hand.index(card)\<close> raises
  \<^verbatim>\<open>ValueError\<close> for a card that is not in the hand.\<close>

definition first_index :: "'a list \<Rightarrow> 'a \<Rightarrow> nat" where
  "first_index xs x = length (takeWhile (\<lambda>y. y \<noteq> x) xs)"

definition van_handle_ai_turn ::
  "vgame \<Rightarrow> nat \<Rightarrow> vcard list \<Rightarrow> vcard option \<Rightarrow> error + (vcard option \<times> vgame)" where
  "van_handle_ai_turn g i playable_cards top_card =
     (let player = vplayers g ! i in
      if playable_cards \<noteq> [] then
        (let non_wild = filter (\<lambda>c. \<not> is_wild c) playable_cards;
             card_to_play = (if non_wild \<noteq> [] then hd non_wild else hd playable_cards);
             card_index = first_index (vhand player) card_to_play
         in if card_to_play \<notin> set (vhand player) then Inl ValueError
            else Inr (Some (vhand player ! card_index),
                      g\<lparr>vplayers := vset_hand (vplayers g) i
                           (take card_index (vhand player) @ drop (Suc card_index) (vhand player))\<rparr>))
      else
        (case draw (vhand player) (vdeck g) 1 of
           (h', d', drawn) \<Rightarrow>
             (if drawn = [] then Inl IndexError
              else
                (case can_play (hd drawn) top_card of
                   Inl e \<Rightarrow> Inl e
                 | Inr b \<Rightarrow>
                     (if b then
                        Inr (Some (last h'), g\<lparr>vplayers := vset_hand (vplayers g) i (butlast h'), vdeck := d'\<rparr>)
                      else Inr (None, g\<lparr>vplayers := vset_hand (vplayers g) i h', vdeck := d'\<rparr>))))))"

definition van_handle_pending_draw :: "vgame \<Rightarrow> nat \<Rightarrow> error + vgame" where
  "van_handle_pending_draw g i =
     (case draw (vhand (vplayers g ! i)) (vdeck g) (vpending_draw g) of
        (h', d', drawn) \<Rightarrow>
          next_player (g\<lparr>vplayers := vset_hand (vplayers g) i h', vdeck := d', vpending_draw := 0\<rparr>))"

text \<open>\<^verbatim>\<open>play_turn\<close> for a scripted player.\<close>

definition van_play_turn :: "(vcard list \<Rightarrow> vcard list) \<Rightarrow> vcolor \<Rightarrow> vgame \<Rightarrow> error + vgame" where
  "van_play_turn shuffle rnd g0 =
     (case replenish_deck shuffle g0 of
        Inl e \<Rightarrow> Inl e
      | Inr g \<Rightarrow>
          (let i = vcurrent_player_index g in
           if i \<ge> length (vplayers g) then Inl IndexError
           else
             (let top_card = (if vdiscard_pile g \<noteq> [] then Some (last (vdiscard_pile g)) else None) in
              if vpending_draw g > 0 then van_handle_pending_draw g i
              else
                (case find_playable_cards (vhand (vplayers g ! i)) top_card of
                   Inl e \<Rightarrow> Inl e
                 | Inr playable_cards \<Rightarrow>
                     (case van_handle_ai_turn g i playable_cards top_card of
                        Inl e \<Rightarrow> Inl e
                      | Inr (None, g1) \<Rightarrow> next_player g1
                      | Inr (Some played_card, g1) \<Rightarrow>
                          (case handle_card_effect rnd
                                  (g1\<lparr>vdiscard_pile := vdiscard_pile g1 @ [played_card]\<rparr>) played_card of
                             Inl e \<Rightarrow> Inl e
                           | Inr g2 \<Rightarrow>
                               (if length (vhand (vplayers g2 ! i)) = 0 then
                                  Inr (g2\<lparr>vgame_over := True, vwinner := Some (vid (vplayers g2 ! i))\<rparr>)
                                else next_player g2)))))))"

section \<open>Concrete game states\<close>

text \<open>Small states on which the programs are run below.\<close>

definition mk_player :: "nat \<Rightarrow> bool \<Rightarrow> card list \<Rightarrow> player" where
  "mk_player k human h = \<lparr>pid = k, hand = h, is_human = human\<rparr>"

definition mk_game :: "player list \<Rightarrow> card list \<Rightarrow> card list \<Rightarrow> nat \<Rightarrow> card_value option \<Rightarrow> game" where
  "mk_game ps d dp pend pt =
     \<lparr>players = ps, deck = d, discard_pile = dp, current_player_index = 0, direction = 1,
      turn_count = 0, game_over = False, pending_draw = pend, pending_draw_type = pt,
      winner_id = None, mercy_rule = True\<rparr>"

definition small_deck :: "card list" where
  "small_deck = [Card Number (Some Yellow) (Num 1), Card Number (Some Yellow) (Num 2),
                 Card Number (Some Yellow) (Num 3), Card Number (Some Yellow) (Num 4),
                 Card Number (Some Yellow) (Num 6)]"

text \<open>Two players, player 1 to move with the given hand, a pending draw of 2 of type Draw2.\<close>

definition stack_game :: "bool \<Rightarrow> card list \<Rightarrow> game" where
  "stack_game human h =
     mk_game [mk_player 1 human h, mk_player 2 False [Card Number (Some Blue) (Num 3)]]
       small_deck [Card Action (Some Green) Draw2] 2 (Some Draw2)"

text \<open>26 number cards of the deck, Blue and Green, none of value 5.\<close>

definition mercy_hand :: "card list" where
  "mercy_hand =
     map (\<lambda>v. Card Number (Some Blue) (Num v)) [0, 1, 1, 2, 2, 3, 3, 4, 4, 6, 6, 7, 7, 8, 8, 9, 9]
     @ map (\<lambda>v. Card Number (Some Green) (Num v)) [0, 1, 1, 2, 2, 3, 3, 4, 4]"

text \<open>Two players, no pending draw, top card Red 5; player 1 holds the first \<open>k\<close> cards of
  \<open>mercy_hand\<close>, none of them playable, and will draw Yellow 6.\<close>

definition mercy_game :: "nat \<Rightarrow> game" where
  "mercy_game k =
     mk_game [mk_player 1 False (take k mercy_hand),
              mk_player 2 False [Card Number (Some Yellow) (Num 9)]]
       small_deck [Card Number (Some Red) (Num 5)] 0 None"

text \<open>Four players, top card Red 5, no pending draw; player 1 holds a Red Skip.\<close>

definition skip_ring :: game where
  "skip_ring =
     mk_game [mk_player 1 False [Card Action (Some Red) Skip, Card Number (Some Blue) (Num 1)],
              mk_player 2 False [Card Number (Some Blue) (Num 2)],
              mk_player 3 False [Card Number (Some Blue) (Num 3)],
              mk_player 4 False [Card Number (Some Blue) (Num 4)]]
       small_deck [Card Number (Some Red) (Num 5)] 0 None"

definition VCard :: "vcolor \<Rightarrow> vvalue \<Rightarrow> vcard" where
  "VCard c v = \<lparr>vcolor = c, vvalue = v\<rparr>"

text \<open>The classic game with \<open>n\<close> scripted players on the top card Red 5; player 1, to
  move, holds Red Skip and Blue 1, every other player one Blue number card.\<close>

definition skip_game :: "nat \<Rightarrow> vgame" where
  "skip_game n =
     \<lparr>vplayers =
        map (\<lambda>k. \<lparr>vid = Suc k,
                  vhand = (if k = 0 then [VCard VRed VSkip, VCard VBlue (VNum 1)]
                           else [VCard VBlue (VNum (int k + 1))])\<rparr>) [0..<n],
      vdeck = [VCard VGreen (VNum 1), VCard VGreen (VNum 2), VCard VGreen (VNum 3),
               VCard VGreen (VNum 4)],
      vdiscard_pile = [VCard VRed (VNum 5)],
      vcurrent_player_index = 0, vdirection = 1, vgame_over = False, vwinner = None,
      vpending_draw = 0\<rparr>"

text \<open>Two players holding one and two cards.\<close>

definition rot_game :: game where
  "rot_game =
     mk_game [mk_player 1 False [Card Number (Some Blue) (Num 1)],
              mk_player 2 False [Card Number (Some Red) (Num 2), Card Number (Some Red) (Num 3)]]
       small_deck [Card Number (Some Red) (Num 5)] 0 None"

text \<open>A deck of three cards and a discard pile of ten, with a pending draw of 6 that
  player 1 cannot stack on.\<close>

definition short_deck_game :: game where
  "short_deck_game =
     mk_game [mk_player 1 False [Card Number (Some Blue) (Num 3)],
              mk_player 2 False [Card Number (Some Blue) (Num 4)]]
       (take 3 small_deck)
       (map (\<lambda>v. Card Number (Some Red) (Num v)) [1, 2, 3, 4, 5, 6, 7, 8, 9]
        @ [Card Wild (Some Red) Draw6])
       6 (Some Draw6)"

section \<open>The claims' own words\<close>

text \<open>
  The target of ReverseDraw4 as the specification states it: the player at
  \<open>(current_index - direction) mod ring size\<close>, with the direction before the flip.
\<close>

definition claimed_target :: "game \<Rightarrow> nat" where
  "claimed_target g =
     nat ((int (current_player_index g) - direction g) mod int (length (players g)))"

text \<open>The state the specification prescribes after ReverseDraw4: the target has drawn (up
  to) four cards from the top of the deck, then the direction is flipped; nothing else
  changes.\<close>

definition after_reverse_draw4 :: "game \<Rightarrow> game" where
  "after_reverse_draw4 g =
     g\<lparr>players := set_hand (players g) (claimed_target g)
                    (hand (players g ! claimed_target g) @ take 4 (rev (deck g))),
       deck := rev (drop 4 (rev (deck g))),
       direction := - direction g\<rparr>"

text \<open>The conserved quantity of the specification: the cards in the deck, in the discard
  pile and in the hands of the players in the ring.\<close>

definition hands_total :: "player list \<Rightarrow> nat" where
  "hands_total ps = sum_list (map (\<lambda>p. length (hand p)) ps)"

definition total_cards :: "game \<Rightarrow> nat" where
  "total_cards g = length (deck g) + length (discard_pile g) + hands_total (players g)"

text \<open>The number of cards held by the player whom the simulator's mercy check removes at
  the end of a normal turn: the player at the current index once the turn's actions are
  done.\<close>

definition sim_removed_hand :: "game \<Rightarrow> nat" where
  "sim_removed_hand g =
     (case sim_turn_actions g (current_player_index g) of
        Inl e \<Rightarrow> 0
      | Inr g2 \<Rightarrow> length (hand (players g2 ! current_player_index g2)))"

section \<open>Lemmas\<close>

subsection \<open>Drawing\<close>

lemma draw_eq: "draw h d n = (h @ take n (rev d), rev (drop n (rev d)), take n (rev d))"
proof (induction n arbitrary: h d)
  case 0
  show ?case by simp
next
  case (Suc n)
  show ?case
  proof (cases "d = []")
    case True
    with Suc show ?thesis by simp
  next
    case False
    then have r: "rev d = last d # rev (butlast d)"
      by (metis append_butlast_last_id rev_append rev_singleton_conv append_Cons append_Nil)
    show ?thesis using False by (simp add: Suc r)
  qed
qed

lemma draw_facts:
  "(case draw h d n of (h', d', drawn) \<Rightarrow>
      length drawn = min n (length d) \<and> h' = h @ drawn \<and> d' @ rev drawn = d
      \<and> (length drawn < n \<longleftrightarrow> length d < n))"
proof -
  have "rev (drop n (rev d)) @ rev (take n (rev d)) = d"
    by (metis append_take_drop_id rev_append rev_rev_ident)
  then show ?thesis by (auto simp add: draw_eq min_def)
qed

subsection \<open>The hand rotation is a list rotation\<close>

lemma rot_idx:
  assumes "0 < n" "i < n"
  shows "nat ((int i - d) mod int n) = (i + nat ((- d) mod int n)) mod n"
proof -
  have "int ((i + nat ((- d) mod int n)) mod n) = (int i + (- d) mod int n) mod int n"
    using assms by (simp add: zmod_int)
  also have "\<dots> = (int i - d) mod int n"
    by (simp add: mod_add_right_eq)
  finally show ?thesis by simp
qed

lemma rotate_map:
  "map (\<lambda>i. xs ! nat ((int i - d) mod int (length xs))) [0..<length xs]
     = rotate (nat ((- d) mod int (length xs))) xs"
proof (cases "xs = []")
  case True then show ?thesis by simp
next
  case False
  then have n: "0 < length xs" by simp
  show ?thesis
  proof (rule nth_equalityI)
    show "length (map (\<lambda>i. xs ! nat ((int i - d) mod int (length xs))) [0..<length xs])
           = length (rotate (nat ((- d) mod int (length xs))) xs)" by simp
  next
    fix i assume "i < length (map (\<lambda>i. xs ! nat ((int i - d) mod int (length xs))) [0..<length xs])"
    then have i: "i < length xs" by simp
    show "map (\<lambda>i. xs ! nat ((int i - d) mod int (length xs))) [0..<length xs] ! i
            = rotate (nat ((- d) mod int (length xs))) xs ! i"
      using i by (simp add: nth_rotate rot_idx [OF n i] add.commute)
  qed
qed

lemma cycle_hands:
  "2 \<le> length (players g) \<Longrightarrow>
   map hand (players (switch_hands_in_cycle g))
     = rotate (nat ((- direction g) mod int (length (players g)))) (map hand (players g))"
  using rotate_map [of "map hand (players g)" "direction g"]
  by (simp add: switch_hands_in_cycle_def Let_def comp_def cong: map_cong)

lemma cycle_players_length: "length (players (switch_hands_in_cycle g)) = length (players g)"
  by (simp add: switch_hands_in_cycle_def Let_def)

lemma ring_mod_less:
  assumes "0 < n"
  shows "nat (a mod int n) < n"
proof -
  have "0 < int n" using assms by linarith
  then have "0 \<le> a mod int n" and "a mod int n < int n"
    by (rule pos_mod_sign, rule pos_mod_bound)
  then show ?thesis by linarith
qed

lemma cycle_nth:
  assumes n: "2 \<le> length (players g)" and i: "i < length (players g)"
  shows "hand (players (switch_hands_in_cycle g) ! i)
     = hand (players g ! nat ((int i - direction g) mod int (length (players g))))"
proof -
  have "0 < length (players g)" using n by linarith
  then have "nat ((int i - direction g) mod int (length (players g))) < length (players g)"
    by (rule ring_mod_less)
  then show ?thesis using n i by (simp add: switch_hands_in_cycle_def Let_def)
qed

lemma mset_rotate_eq: "mset (rotate n xs) = mset xs"
proof -
  have "mset (drop (n mod length xs) xs @ take (n mod length xs) xs)
          = mset (take (n mod length xs) xs @ drop (n mod length xs) xs)"
    by (simp only: mset_append add.commute)
  then show ?thesis by (simp add: rotate_drop_take)
qed

lemma mset_concat_perm: "mset xss = mset yss \<Longrightarrow> mset (concat xss) = mset (concat yss)"
  by (metis mset_concat sum_mset_sum_list mset_map)

subsection \<open>Conservation, operation by operation\<close>

lemma hands_total_update:
  "i < length ps \<Longrightarrow>
   hands_total (ps[i := p]) + length (hand (ps ! i)) = hands_total ps + length (hand p)"
proof (induction ps arbitrary: i)
  case Nil
  then show ?case by simp
next
  case (Cons a ps)
  show ?case
  proof (cases i)
    case 0
    then show ?thesis by (simp add: hands_total_def)
  next
    case (Suc j)
    with Cons.prems have "j < length ps" by simp
    from Cons.IH [OF this] show ?thesis using Suc by (simp add: hands_total_def)
  qed
qed

lemma hands_total_set_hand:
  "i < length ps \<Longrightarrow>
   hands_total (set_hand ps i h) + length (hand (ps ! i)) = hands_total ps + length h"
  using hands_total_update [of i ps "(ps ! i)\<lparr>hand := h\<rparr>"] by (simp add: set_hand_def)

lemma length_set_hand [simp]: "length (set_hand ps i h) = length ps"
  by (simp add: set_hand_def)

lemma draw_total:
  "draw h d n = (h', d', drawn) \<Longrightarrow> length h' + length d' = length h + length d"
  by (auto simp add: draw_eq)

lemma play_card_length: "play_card h c = Some (p, r) \<Longrightarrow> Suc (length r) = length h"
  by (induction h arbitrary: r) (auto split: if_splits option.splits)

lemma sim_roulette_total:
  "sim_color_roulette c h d = (h', d') \<Longrightarrow> length h' + length d' = length h + length d"
proof (induction c h d rule: sim_color_roulette.induct)
  case (1 c h d)
  show ?case
  proof (cases "d = []")
    case True
    with "1.prems" show ?thesis by (simp add: sim_color_roulette.simps)
  next
    case False
    obtain h1 d1 dr where dr: "draw h d 1 = (h1, d1, dr)" by (cases "draw h d 1") auto
    have t: "length h1 + length d1 = length h + length d" by (rule draw_total [OF dr])
    show ?thesis
    proof (cases "dr \<noteq> [] \<and> color (hd dr) = c")
      case True
      with "1.prems" False dr have "h' = h1 \<and> d' = d1"
        by (auto simp add: sim_color_roulette.simps [of c h d])
      with t show ?thesis by simp
    next
      case F2: False
      with "1.prems" False dr have "sim_color_roulette c h1 d1 = (h', d')"
        by (auto simp add: sim_color_roulette.simps [of c h d])
      from "1.IH" [OF False dr [symmetric] refl F2 this] t show ?thesis by simp
    qed
  qed
qed

lemma ring_index_less: "ring_index a n = Inr j \<Longrightarrow> j < n"
  using ring_mod_less [of n a] by (auto simp add: ring_index_def split: if_splits)

lemma total_players_deck:
  assumes "j < length (players g)"
    and "length h' + length d' = length (hand (players g ! j)) + length (deck g)"
  shows "hands_total (set_hand (players g) j h') + length d'
           = hands_total (players g) + length (deck g)"
  using hands_total_set_hand [OF assms(1), of h'] assms(2) by linarith

lemma total_start_pending [simp]: "total_cards (start_pending g v p) = total_cards g"
  by (simp add: start_pending_def total_cards_def)

lemma length_filter_split: "length (filter P xs) + length (filter (\<lambda>x. \<not> P x) xs) = length xs"
  by (induction xs) auto

lemma total_discard_color:
  assumes "discard_color_effect g c = Inr g'"
  shows "total_cards g' = total_cards g"
proof -
  let ?i = "current_player_index g"
  let ?h = "hand (players g ! ?i)"
  from assms have i: "?i < length (players g)"
    by (auto simp add: discard_color_effect_def Let_def split: if_splits)
  from assms i have g': "g' = g\<lparr>players := set_hand (players g) ?i (filter (\<lambda>x. color x \<noteq> color c) ?h),
                           discard_pile := discard_pile g @ filter (\<lambda>x. color x = color c) ?h\<rparr>"
    by (auto simp add: discard_color_effect_def Let_def)
  have "hands_total (set_hand (players g) ?i (filter (\<lambda>x. color x \<noteq> color c) ?h)) + length ?h
          = hands_total (players g) + length (filter (\<lambda>x. color x \<noteq> color c) ?h)"
    by (rule hands_total_set_hand [OF i])
  moreover have "length (filter (\<lambda>x. color x = color c) ?h)
                   + length (filter (\<lambda>x. color x \<noteq> color c) ?h) = length ?h"
    by (rule length_filter_split)
  ultimately show ?thesis by (simp add: g' total_cards_def)
qed

lemma total_draw_effect:
  assumes "j < length (players g)"
    and "draw (hand (players g ! j)) (deck g) k = (h', d', dr)"
  shows "total_cards (g\<lparr>players := set_hand (players g) j h', deck := d', direction := x\<rparr>)
           = total_cards g"
  using total_players_deck [OF assms(1) draw_total [OF assms(2)]]
  by (simp add: total_cards_def)

lemma total_roulette_effect:
  assumes "j < length (players g)"
    and "sim_color_roulette c (hand (players g ! j)) (deck g) = (h', d')"
  shows "total_cards (g\<lparr>players := set_hand (players g) j h', deck := d'\<rparr>) = total_cards g"
  using total_players_deck [OF assms(1) sim_roulette_total [OF assms(2)]]
  by (simp add: total_cards_def)

lemma total_index [simp]: "total_cards (g\<lparr>current_player_index := j\<rparr>) = total_cards g"
  by (simp add: total_cards_def)

lemma total_direction [simp]: "total_cards (g\<lparr>direction := j\<rparr>) = total_cards g"
  by (simp add: total_cards_def)

lemma total_effects:
  assumes "sim_handle_card_effects g c = Inr g'"
  shows "total_cards g' = total_cards g"
proof (cases "ctype c = Action")
  case True
  with assms show ?thesis
    by (auto simp add: sim_handle_card_effects_def Let_def total_discard_color
        split: if_splits sum.splits)
next
  case False
  show ?thesis
  proof (cases "ctype c = Wild")
    case W: True
    show ?thesis
    proof (cases "cvalue c = ReverseDraw4")
      case True
      with assms W obtain t h' d' dr where
        t: "(if direction g > 0
             then ring_index (int (current_player_index g) - direction g) (length (players g))
             else ring_index (int (current_player_index g) + 1) (length (players g))) = Inr t"
        and dr: "draw (hand (players g ! t)) (deck g) 4 = (h', d', dr)"
        and g': "g' = g\<lparr>players := set_hand (players g) t h', deck := d',
                         direction := direction g * (- 1)\<rparr>"
        by (auto simp add: sim_handle_card_effects_def Let_def split: sum.splits prod.splits)
      from t have "t < length (players g)"
        by (auto dest: ring_index_less split: if_splits)
      from total_draw_effect [OF this dr] show ?thesis by (simp add: g')
    next
      case NR: False
      show ?thesis
      proof (cases "cvalue c = ColorRoulette")
        case True
        with assms W NR obtain t h' d' where
          t: "ring_index (int (current_player_index g) + direction g) (length (players g)) = Inr t"
          and dr: "sim_color_roulette (color c) (hand (players g ! t)) (deck g) = (h', d')"
          and g': "g' = g\<lparr>players := set_hand (players g) t h', deck := d'\<rparr>"
          by (auto simp add: sim_handle_card_effects_def Let_def split: sum.splits prod.splits)
        from t have "t < length (players g)" by (rule ring_index_less)
        from total_roulette_effect [OF this dr] show ?thesis by (simp add: g')
      next
        case False
        with assms W NR show ?thesis
          by (auto simp add: sim_handle_card_effects_def Let_def split: if_splits)
      qed
    qed
  next
    case False
    with assms \<open>ctype c \<noteq> Action\<close> show ?thesis
      by (simp add: sim_handle_card_effects_def Let_def)
  qed
qed

lemma length_effects:
  assumes "sim_handle_card_effects g c = Inr g'"
  shows "length (players g') = length (players g)"
proof (cases "ctype c = Action")
  case True
  with assms show ?thesis
    by (auto simp add: sim_handle_card_effects_def Let_def start_pending_def
        discard_color_effect_def split: if_splits sum.splits)
next
  case False
  with assms show ?thesis
    by (auto simp add: sim_handle_card_effects_def Let_def start_pending_def
        split: if_splits sum.splits prod.splits)
qed

lemma sum_list_map_perm:
  assumes "mset xs = mset ys"
  shows "sum_list (map f xs) = (sum_list (map f ys) :: nat)"
proof -
  have "sum_mset (mset (map f xs)) = sum_mset (mset (map f ys))"
    using assms by simp
  then show ?thesis by (simp only: sum_mset_sum_list)
qed

lemma total_cycle: "total_cards (switch_hands_in_cycle g) = total_cards g"
proof (cases "2 \<le> length (players g)")
  case True
  have "mset (map hand (players (switch_hands_in_cycle g))) = mset (map hand (players g))"
    by (simp add: cycle_hands [OF True] mset_rotate_eq)
  then have "sum_list (map length (map hand (players (switch_hands_in_cycle g))))
               = sum_list (map length (map hand (players g)))"
    by (rule sum_list_map_perm)
  then have "hands_total (players (switch_hands_in_cycle g)) = hands_total (players g)"
    by (simp add: hands_total_def comp_def)
  moreover have "deck (switch_hands_in_cycle g) = deck g"
    and "discard_pile (switch_hands_in_cycle g) = discard_pile g"
    by (simp_all add: switch_hands_in_cycle_def Let_def)
  ultimately show ?thesis by (simp add: total_cards_def)
next
  case False
  then have "switch_hands_in_cycle g = g" by (simp add: switch_hands_in_cycle_def Let_def)
  then show ?thesis by simp
qed

lemma choice_fold:
  "foldl (choice_step ps cur) acc js = Some t \<Longrightarrow> acc = Some t \<or> t \<in> set js"
proof (induction js arbitrary: acc)
  case Nil
  then show ?case by simp
next
  case (Cons j js)
  from Cons.prems have "foldl (choice_step ps cur) (choice_step ps cur acc j) js = Some t"
    by simp
  from Cons.IH [OF this] have "choice_step ps cur acc j = Some t \<or> t \<in> set js" .
  moreover have "choice_step ps cur acc j = acc \<or> choice_step ps cur acc j = Some j"
    by (auto simp add: choice_step_def Let_def split: option.splits)
  ultimately show ?case by auto
qed

lemma swap_total:
  assumes "i < length ps" and "t < length ps"
  shows "hands_total (swap_hands ps i t) = hands_total ps"
proof -
  let ?a = "(ps ! i)\<lparr>hand := hand (ps ! t)\<rparr>"
  let ?b = "(ps ! t)\<lparr>hand := hand (ps ! i)\<rparr>"
  have 1: "hands_total (ps[i := ?a]) + length (hand (ps ! i))
             = hands_total ps + length (hand (ps ! t))"
    using hands_total_update [OF assms(1), of ?a] by simp
  have t': "t < length (ps[i := ?a])" using assms(2) by simp
  have h: "hand ((ps[i := ?a]) ! t) = hand (ps ! t)"
    using assms by (cases "i = t") simp_all
  have 2: "hands_total ((ps[i := ?a])[t := ?b]) + length (hand (ps ! t))
             = hands_total (ps[i := ?a]) + length (hand (ps ! i))"
    using hands_total_update [OF t', of ?b] h by simp
  from 1 2 show ?thesis by (simp add: swap_hands_def)
qed

lemma length_swap_hands [simp]: "length (swap_hands ps i t) = length ps"
  by (simp add: swap_hands_def)

lemma total_choice:
  assumes "i < length (players g)"
  shows "total_cards (sim_switch_hands_with_choice g i) = total_cards g
         \<and> length (players (sim_switch_hands_with_choice g i)) = length (players g)"
proof (cases "foldl (choice_step (players g) (players g ! i)) None [0..<length (players g)]")
  case None
  then show ?thesis by (simp add: sim_switch_hands_with_choice_def Let_def)
next
  case (Some t)
  from choice_fold [OF Some] have "t < length (players g)" by simp
  from swap_total [OF assms this] Some show ?thesis
    by (simp add: sim_switch_hands_with_choice_def Let_def total_cards_def)
qed

lemma pop_at_total:
  assumes "k < length ps"
  shows "hands_total (pop_at ps k) + length (hand (ps ! k)) = hands_total ps"
    and "Suc (length (pop_at ps k)) = length ps"
proof -
  have "ps = take k ps @ ps ! k # drop (Suc k) ps"
    using assms by (rule id_take_nth_drop)
  then have "hands_total ps
      = hands_total (take k ps @ ps ! k # drop (Suc k) ps)"
    by simp
  then have "hands_total ps
      = hands_total (take k ps) + length (hand (ps ! k)) + hands_total (drop (Suc k) ps)"
    by (simp add: hands_total_def)
  then show "hands_total (pop_at ps k) + length (hand (ps ! k)) = hands_total ps"
    by (simp add: pop_at_def hands_total_def)
  show "Suc (length (pop_at ps k)) = length ps"
    using assms by (simp add: pop_at_def min_def)
qed

lemma total_play_to_discard:
  assumes "i < length (players g)" and "play_card (hand (players g ! i)) c = Some (p, r)"
  shows "total_cards (g\<lparr>players := set_hand (players g) i r,
                          discard_pile := discard_pile g @ [q]\<rparr>) = total_cards g"
  using hands_total_set_hand [OF assms(1), of r] play_card_length [OF assms(2)]
  by (simp add: total_cards_def)

lemma total_pending:
  assumes "sim_pending_turn g i = Inr (over, g')" and i: "i < length (players g)"
  shows "total_cards g' = total_cards g \<and> length (players g') = length (players g)"
proof (cases "filter (is_stackable (allowed_stacking (pending_draw_type g))) (hand (players g ! i))")
  case Nil
  obtain h' d' dr where dr: "draw (hand (players g ! i)) (deck g) (pending_draw g) = (h', d', dr)"
    by (cases "draw (hand (players g ! i)) (deck g) (pending_draw g)") auto
  from assms(1) Nil dr obtain j where
    g': "g' = g\<lparr>players := set_hand (players g) i h', deck := d',
                  pending_draw := 0, pending_draw_type := None,
                  current_player_index := j, turn_count := turn_count g + 1\<rparr>"
    by (auto simp add: sim_pending_turn_def Let_def split: sum.splits)
  from total_players_deck [OF i draw_total [OF dr]] show ?thesis
    by (simp add: g' total_cards_def)
next
  case (Cons c cs)
  from assms(1) Cons obtain popped r p j where
    pc: "play_card (hand (players g ! i)) c = Some (popped, r)"
    and g': "g' = g\<lparr>players := set_hand (players g) i r,
                  discard_pile := discard_pile g @ [recolor r popped],
                  pending_draw := pending_draw g + p,
                  pending_draw_type := Some (cvalue (recolor r popped)),
                  current_player_index := j, turn_count := turn_count g + 1\<rparr>"
    by (auto simp add: sim_pending_turn_def Let_def split: sum.splits option.splits)
  from total_play_to_discard [OF i pc, of "recolor r popped"] show ?thesis
    by (simp add: g' total_cards_def)
qed

lemma total_actions:
  assumes "sim_turn_actions g i = Inr g'" and i: "i < length (players g)"
  shows "total_cards g' = total_cards g \<and> length (players g') = length (players g)"
proof (cases "sim_find_best_card (hand (players g ! i)) (get_top_card g)")
  case None
  obtain h' d' dr where dr: "draw (hand (players g ! i)) (deck g) 1 = (h', d', dr)"
    by (cases "draw (hand (players g ! i)) (deck g) 1") auto
  from assms(1) None dr have g': "g' = g\<lparr>players := set_hand (players g) i h', deck := d'\<rparr>"
    by (simp add: sim_turn_actions_def Let_def)
  from total_players_deck [OF i draw_total [OF dr]] show ?thesis
    by (simp add: g' total_cards_def)
next
  case (Some best)
  let ?g1 = "\<lambda>r q. g\<lparr>players := set_hand (players g) i r, discard_pile := discard_pile g @ [q]\<rparr>"
  from assms(1) Some obtain popped r g2 where
    pc: "play_card (hand (players g ! i)) best = Some (popped, r)"
    and ef: "sim_handle_card_effects (?g1 r (recolor r popped)) (recolor r popped) = Inr g2"
    and g': "g' = (if ctype (recolor r popped) = Number then
                     (if cvalue (recolor r popped) = Num 0 then switch_hands_in_cycle g2
                      else if cvalue (recolor r popped) = Num 7
                        then sim_switch_hands_with_choice g2 i
                      else g2)
                   else g2)"
    by (auto simp add: sim_turn_actions_def Let_def split: sum.splits option.splits)
  have t1: "total_cards (?g1 r (recolor r popped)) = total_cards g"
    by (rule total_play_to_discard [OF i pc])
  have t2: "total_cards g2 = total_cards g"
    using total_effects [OF ef] t1 by simp
  have l2: "length (players g2) = length (players g)"
    using length_effects [OF ef] by simp
  then have i2: "i < length (players g2)" using i by simp
  show ?thesis
    using t2 l2 total_cycle [of g2] cycle_players_length [of g2] total_choice [OF i2]
    by (simp add: g')
qed

lemma total_end:
  assumes "sim_turn_end g i = Inr (over, g')"
  shows "(length (players g') = length (players g) \<longrightarrow> total_cards g' = total_cards g)
       \<and> (length (players g') \<noteq> length (players g) \<longrightarrow>
            Suc (length (players g')) = length (players g)
            \<and> total_cards g' + length (hand (players g ! current_player_index g)) = total_cards g)"
proof (cases "mercy_rule g \<and> length (hand (players g ! i)) \<ge> 25")
  case True
  let ?k = "current_player_index g"
  from assms True have k: "?k < length (players g)"
    by (auto simp add: sim_turn_end_def Let_def split: if_splits)
  from assms True k have
    g': "players g' = pop_at (players g) ?k \<and> deck g' = deck g
         \<and> discard_pile g' = discard_pile g"
    by (auto simp add: sim_turn_end_def Let_def split: if_splits)
  from pop_at_total [OF k] show ?thesis by (simp add: g' total_cards_def)
next
  case False
  from assms False have
    g': "players g' = players g \<and> deck g' = deck g \<and> discard_pile g' = discard_pile g"
    by (auto simp add: sim_turn_end_def Let_def split: if_splits sum.splits)
  show ?thesis by (simp add: g' total_cards_def)
qed

subsection \<open>The stacking table, and Skip in the No-Mercy programs\<close>

text \<open>The cards that may be stacked on a pending draw of type \<open>t\<close> are those of the
  escalation table; a Skip followed by the end-of-turn advance moves the pointer two
  positions in the simulator and in the playable and RL programs.\<close>

lemma stacking_table:
  "is_stackable (allowed_stacking (Some t)) (Card Action col Draw2) \<longleftrightarrow> t = Draw2"
  "is_stackable (allowed_stacking (Some t)) (Card Action col Draw4) \<longleftrightarrow> t = Draw2 \<or> t = Draw4"
  "is_stackable (allowed_stacking (Some t)) (Card Wild col Draw6)
     \<longleftrightarrow> t = Draw2 \<or> t = Draw4 \<or> t = Draw6"
  "is_stackable (allowed_stacking (Some t)) (Card Wild col Draw10)
     \<longleftrightarrow> t = Draw2 \<or> t = Draw4 \<or> t = Draw6 \<or> t = Draw10"
  by (auto simp add: is_stackable_def allowed_stacking_def Card_def)

lemma ring_index_twice:
  assumes "0 < n"
  shows "ring_index (int (nat ((int i + d) mod int n)) + d) n
           = Inr (nat ((int i + 2 * d) mod int n))"
proof -
  have "0 \<le> (int i + d) mod int n" using assms by simp
  then have "(int (nat ((int i + d) mod int n)) + d) mod int n = ((int i + d) mod int n + d) mod int n"
    by simp
  also have "\<dots> = (int i + 2 * d) mod int n"
    by (simp add: mod_add_left_eq add.assoc)
  finally show ?thesis using assms by (simp add: ring_index_def)
qed

lemma no_mercy_skip_advances_two:
  assumes "ctype c = Action" and "cvalue c = Skip" and "players g \<noteq> []"
  shows "\<exists>g1 g2. sim_handle_card_effects g c = Inr g1 \<and> pl_handle_card_effects g c = Inr g1
           \<and> advance_turn g1 = Inr g2
           \<and> current_player_index g2
               = nat ((int (current_player_index g) + 2 * direction g) mod int (length (players g)))"
proof -
  have n: "0 < length (players g)" using assms(3) by simp
  let ?g1 = "g\<lparr>current_player_index :=
                 nat ((int (current_player_index g) + direction g) mod int (length (players g)))\<rparr>"
  have 1: "sim_handle_card_effects g c = Inr ?g1" and 2: "pl_handle_card_effects g c = Inr ?g1"
    using assms n
    by (simp_all add: sim_handle_card_effects_def pl_handle_card_effects_def ring_index_def)
  have 3: "advance_turn ?g1 = Inr (?g1\<lparr>current_player_index :=
              nat ((int (current_player_index g) + 2 * direction g) mod int (length (players g))),
              turn_count := turn_count ?g1 + 1\<rparr>)"
    using ring_index_twice [OF n, of "current_player_index g" "direction g"]
    by (simp add: advance_turn_def)
  show ?thesis using 1 2 3 by simp
qed

subsection \<open>A turn of the simulator does not raise\<close>

text \<open>With the current index inside the ring, \<^verbatim>\<open>play_turn\<close> returns: the card picked by
  \<^verbatim>\<open>find_best_card\<close> or by the stacking filter is in the hand, so \<^verbatim>\<open>play_card\<close> finds it,
  a stacked card has a penalty, and every index is taken modulo a non-empty ring.\<close>

lemma play_card_finds: "c \<in> set h \<Longrightarrow> \<exists>p r. play_card h c = Some (p, r) \<and> cvalue p = cvalue c \<and> ctype p = ctype c"
  by (induction h) auto

lemma best_loop_mem:
  "best_loop sc cs best = Some (s, c) \<Longrightarrow> c \<in> set cs \<or> best = Some (s, c)"
proof (induction cs arbitrary: best)
  case Nil
  then show ?case by simp
next
  case (Cons a cs)
  define best' where "best' =
    (case best of None \<Rightarrow> Some (sc a, a)
     | Some (bs, bc) \<Rightarrow> if sc a > bs then Some (sc a, a) else best)"
  have b: "best_loop sc (a # cs) best = best_loop sc cs best'"
    by (simp add: best'_def split: option.splits prod.splits)
  have c: "best' = Some (sc a, a) \<or> best' = best"
    by (simp add: best'_def split: option.splits prod.splits)
  from Cons.prems b have "best_loop sc cs best' = Some (s, c)" by simp
  from Cons.IH [OF this] c show ?case by auto
qed

lemma find_best_mem:
  assumes "find_best_with ok h t = Some c"
  shows "c \<in> set h"
proof (cases t)
  case None
  with assms show ?thesis by (cases h) (auto simp add: find_best_with_def)
next
  case (Some top_card)
  with assms obtain s where
    "best_loop (card_score h top_card (filter (\<lambda>c. ctype c \<noteq> Wild) (filter (ok top_card) h)))
       (filter (ok top_card) h) None = Some (s, c)"
    by (auto simp add: find_best_with_def Let_def)
  from best_loop_mem [OF this] show ?thesis by auto
qed

lemma ring_index_ok: "0 < n \<Longrightarrow> ring_index a n = Inr (nat (a mod int n))"
  by (simp add: ring_index_def)

lemma effects_return:
  assumes "current_player_index g < length (players g)"
  shows "\<exists>g'. sim_handle_card_effects g c = Inr g'
           \<and> current_player_index g' < length (players g')
           \<and> length (players g') = length (players g)"
proof -
  have n: "0 < length (players g)" using assms by (cases "players g") simp_all
  note ri = ring_index_ok [OF n] and lt = ring_mod_less [OF n]
  show ?thesis
  proof (cases "ctype c = Action")
    case True
    then show ?thesis using assms
      by (simp add: sim_handle_card_effects_def Let_def ri lt start_pending_def
          discard_color_effect_def)
  next
    case False
    then show ?thesis using assms
      by (simp add: sim_handle_card_effects_def Let_def ri lt start_pending_def
          split: prod.splits)
  qed
qed

lemma stackable_penalty: "is_stackable al c \<Longrightarrow> penalty_mapping (cvalue c) \<noteq> None"
  by (auto simp add: is_stackable_def penalty_mapping_def)

lemma recolor_fields [simp]: "cvalue (recolor h p) = cvalue p" "ctype (recolor h p) = ctype p"
  by (simp_all add: recolor_def)

lemma pending_return:
  assumes i: "i < length (players g)"
  shows "\<exists>g'. sim_pending_turn g i = Inr (False, g')"
proof -
  have n: "0 < length (players g)" using i by (cases "players g") simp_all
  note ri = ring_index_ok [OF n]
  show ?thesis
  proof (cases "filter (is_stackable (allowed_stacking (pending_draw_type g))) (hand (players g ! i))")
    case Nil
    then show ?thesis
      by (simp add: sim_pending_turn_def Let_def ri split: prod.splits)
  next
    case (Cons c cs)
    then have "c \<in> set (filter (is_stackable (allowed_stacking (pending_draw_type g)))
                          (hand (players g ! i)))"
      by simp
    then have m: "c \<in> set (hand (players g ! i))"
      and st: "is_stackable (allowed_stacking (pending_draw_type g)) c"
      by simp_all
    from play_card_finds [OF m] obtain p r where
      pc: "play_card (hand (players g ! i)) c = Some (p, r)" and v: "cvalue p = cvalue c"
      by blast
    from stackable_penalty [OF st] v obtain k where k: "penalty_mapping (cvalue p) = Some k"
      by auto
    show ?thesis
      by (simp add: sim_pending_turn_def Let_def ri Cons pc k)
  qed
qed

lemma actions_return:
  assumes i: "current_player_index g < length (players g)"
  shows "\<exists>g'. sim_turn_actions g (current_player_index g) = Inr g'
           \<and> current_player_index g' < length (players g')"
proof (cases "sim_find_best_card (hand (players g ! current_player_index g)) (get_top_card g)")
  case None
  then show ?thesis using i
    by (simp add: sim_turn_actions_def Let_def split: prod.splits)
next
  case (Some best)
  let ?i = "current_player_index g"
  from Some have "best \<in> set (hand (players g ! ?i))"
    by (simp add: sim_find_best_card_def find_best_mem)
  from play_card_finds [OF this] obtain p r where
    pc: "play_card (hand (players g ! ?i)) best = Some (p, r)" by blast
  let ?g1 = "g\<lparr>players := set_hand (players g) ?i r,
                discard_pile := discard_pile g @ [recolor r p]\<rparr>"
  have "current_player_index ?g1 < length (players ?g1)" using i by simp
  from effects_return [OF this, of "recolor r p"] obtain g2 where
    ef: "sim_handle_card_effects ?g1 (recolor r p) = Inr g2"
    and i2: "current_player_index g2 < length (players g2)"
    by blast
  have c: "current_player_index (switch_hands_in_cycle g2) = current_player_index g2"
    by (simp add: switch_hands_in_cycle_def Let_def)
  have w: "current_player_index (sim_switch_hands_with_choice g2 ?i) = current_player_index g2"
    "length (players (sim_switch_hands_with_choice g2 ?i)) = length (players g2)"
    by (simp_all add: sim_switch_hands_with_choice_def Let_def split: option.splits)
  show ?thesis using i2 c w cycle_players_length [of g2]
    by (simp add: sim_turn_actions_def Let_def Some pc ef)
qed

lemma end_return:
  assumes "current_player_index g < length (players g)"
  shows "\<exists>over g'. sim_turn_end g i = Inr (over, g')"
proof -
  have n: "0 < length (players g)" using assms by (cases "players g") simp_all
  show ?thesis using assms
    by (auto simp add: sim_turn_end_def Let_def ring_index_ok [OF n])
qed

lemma sim_play_turn_returns:
  assumes "current_player_index g < length (players g)"
  shows "\<exists>over g'. sim_play_turn g = Inr (over, g')"
proof (cases "pending_draw g > 0")
  case True
  from pending_return [OF assms] obtain g' where
    "sim_pending_turn g (current_player_index g) = Inr (False, g')" by blast
  with True assms show ?thesis by (auto simp add: sim_play_turn_def)
next
  case False
  from actions_return [OF assms] obtain g2 where
    a: "sim_turn_actions g (current_player_index g) = Inr g2"
    and i2: "current_player_index g2 < length (players g2)" by blast
  from end_return [OF i2, of "current_player_index g"] obtain over g' where
    "sim_turn_end g2 (current_player_index g) = Inr (over, g')" by blast
  with False assms a show ?thesis by (auto simp add: sim_play_turn_def)
qed

section \<open>Results\<close>

text \<open>
  C1. The claim: a Wild card is always legal, a coloured card is legal exactly when its
  colour matches the active colour or its value matches the top card's value, and every
  place that checks legality computes this one predicate. The code does not: for the hand
  card Blue 5 on the top card Red 5, the filter of \<^verbatim>\<open>find_best_card\<close> (simulator and
  playable) and \<^verbatim>\<open>has_playable_card\<close> accept the card by its value, while
  \<^verbatim>\<open>is_valid_choice\<close>, which validates the human's input and the card played after a draw,
  rejects it; and on an uncoloured Wild top card \<^verbatim>\<open>is_valid_choice\<close> and the simulator
  accept Blue 5 while the playable \<^verbatim>\<open>find_best_card\<close> rejects it.
\<close>

theorem C1_legality_predicates_disagree:
  "sim_playable (Card Number (Some Red) (Num 5)) (Card Number (Some Blue) (Num 5))
   \<and> pl_playable (Card Number (Some Red) (Num 5)) (Card Number (Some Blue) (Num 5))
   \<and> has_playable_card [Card Number (Some Blue) (Num 5)] (Card Number (Some Red) (Num 5))
   \<and> pl_find_best_card [Card Number (Some Blue) (Num 5)] (Some (Card Number (Some Red) (Num 5)))
       = Some (Card Number (Some Blue) (Num 5))
   \<and> \<not> is_valid_choice (Card Number (Some Blue) (Num 5)) (Card Number (Some Red) (Num 5))
   \<and> is_valid_choice (Card Number (Some Blue) (Num 5)) (Card Wild None ColorRoulette)
   \<and> sim_playable (Card Wild None ColorRoulette) (Card Number (Some Blue) (Num 5))
   \<and> \<not> pl_playable (Card Wild None ColorRoulette) (Card Number (Some Blue) (Num 5))"
  by (simp add: sim_playable_def pl_playable_def is_valid_choice_def Card_def
      pl_find_best_card_def find_best_with_def card_score_def)

text \<open>
  C2. The claim: a permitted stack adds the card's penalty to the pending amount and sets
  the pending type to the card's value; pending 2 of type Draw2 stacked with a Draw4 becomes
  6 of type Draw4. The stacking table of the code is the claimed one, and the simulator and
  the scripted player of the playable program do update the pending draw. The human branch of
  the playable \<^verbatim>\<open>handle_pending_draw\<close> does not: it plays the chosen card and never calls
  \<^verbatim>\<open>update_pending_draw\<close>. Below, the human types \<^verbatim>\<open>1\<close> to stack the Blue Draw4: the card
  goes to the discard pile and the pending draw stays 2 of type Draw2, while the same state
  played by a scripted player and by the simulator ends with 6 of type Draw4.
\<close>

theorem C2_human_stack_does_not_update_pending:
  "(case pl_handle_pending_draw
           (stack_game True [Card Action (Some Blue) Draw4, Card Number (Some Red) (Num 1)]) 0 [LInt 1] of
      Inl e \<Rightarrow> False
    | Inr (over, g', inp) \<Rightarrow>
        hand (players g' ! 0) = [Card Number (Some Red) (Num 1)]
        \<and> last (discard_pile g') = Card Action (Some Blue) Draw4
        \<and> pending_draw g' = 2 \<and> pending_draw_type g' = Some Draw2
        \<and> current_player_index g' = 1)
   \<and> (case pl_handle_pending_draw
           (stack_game False [Card Action (Some Blue) Draw4, Card Number (Some Red) (Num 1)]) 0 [] of
      Inl e \<Rightarrow> False
    | Inr (over, g', inp) \<Rightarrow> pending_draw g' = 6 \<and> pending_draw_type g' = Some Draw4)
   \<and> (case sim_play_turn
           (stack_game False [Card Action (Some Blue) Draw4, Card Number (Some Red) (Num 1)]) of
      Inl e \<Rightarrow> False
    | Inr (over, g') \<Rightarrow> pending_draw g' = 6 \<and> pending_draw_type g' = Some Draw4)"
  by code_simp

text \<open>
  C3. The claim: whenever the acting player's hand becomes empty in a turn, also by stacking
  the last card on a pending draw, the game is over with that player as the winner. In the
  simulator's \<^verbatim>\<open>play_turn\<close> and in the playable \<^verbatim>\<open>handle_pending_draw\<close> the stacking branch
  returns \<^verbatim>\<open>False\<close> before any win check. Below, player 1 stacks the only card, Red Draw2:
  the hand is empty, the turn reports no end of the game and no winner is recorded.
\<close>

theorem C3_stacking_last_card_is_no_win:
  "(case sim_play_turn (stack_game False [Card Action (Some Red) Draw2]) of
      Inl e \<Rightarrow> False
    | Inr (over, g') \<Rightarrow>
        hand (players g' ! 0) = [] \<and> \<not> over \<and> winner_id g' = None \<and> pending_draw g' = 4)
   \<and> (case pl_handle_pending_draw (stack_game False [Card Action (Some Red) Draw2]) 0 [] of
      Inl e \<Rightarrow> False
    | Inr (over, g', inp) \<Rightarrow>
        hand (players g' ! 0) = [] \<and> \<not> over \<and> winner_id g' = None \<and> \<not> game_over g')"
  by code_simp

text \<open>
  C4. The claim: a player is removed exactly when the hand strictly exceeds 25 cards (25 is
  safe, 26 is not), and when one player remains that player is declared the winner at once.
  The playable and RL \<^verbatim>\<open>check_winner\<close> test \<^verbatim>\<open>> 25\<close>; the simulator tests \<^verbatim>\<open>>= 25\<close>.
  Below, player 1 of the simulator holds 24 cards, cannot play and draws one: with exactly
  25 cards the player is removed, and although player 2 is alone in the ring the turn
  reports no end of the game and records no winner. \<^verbatim>\<open>check_winner\<close> keeps a hand of 25
  and removes one of 26, declaring player 2 the winner.
\<close>

theorem C4_simulator_eliminates_at_25:
  "(case sim_turn_actions (mercy_game 24) 0 of
      Inl e \<Rightarrow> False
    | Inr g' \<Rightarrow> length (hand (players g' ! 0)) = 25)
   \<and> (case sim_play_turn (mercy_game 24) of
      Inl e \<Rightarrow> False
    | Inr (over, g') \<Rightarrow> map pid (players g') = [2] \<and> \<not> over \<and> winner_id g' = None)
   \<and> (case check_winner (mercy_game 25) 0 of
      Inl e \<Rightarrow> False
    | Inr (over, g') \<Rightarrow> map pid (players g') = [1, 2] \<and> \<not> over)
   \<and> (case check_winner (mercy_game 26) 0 of
      Inl e \<Rightarrow> False
    | Inr (over, g') \<Rightarrow> map pid (players g') = [2] \<and> over \<and> winner_id g' = Some 2)"
  by code_simp

text \<open>
  C6. The claim: the pending type is \<open>None\<close> exactly when the pending amount is 0, after every
  operation, also after a human declines to stack and draws the penalty. The branch of
  \<^verbatim>\<open>handle_pending_draw\<close> for a player without a stackable card resets both fields, but the
  \<^verbatim>\<open>d\<close> branch of \<^verbatim>\<open>handle_human_stack_choice\<close> only sets the amount to 0. Below, the human
  holds a Blue Draw4, types \<^verbatim>\<open>d\<close> and draws two cards: the amount is 0 and the type is still
  Draw2.
\<close>

theorem C6_human_decline_keeps_pending_type:
  "(case pl_handle_pending_draw
           (stack_game True [Card Action (Some Blue) Draw4, Card Number (Some Red) (Num 1)]) 0 [LD] of
      Inl e \<Rightarrow> False
    | Inr (over, g', inp) \<Rightarrow>
        length (hand (players g' ! 0)) = 4
        \<and> pending_draw g' = 0 \<and> pending_draw_type g' = Some Draw2)
   \<and> (case pl_handle_pending_draw (stack_game True [Card Number (Some Red) (Num 1)]) 0 [] of
      Inl e \<Rightarrow> False
    | Inr (over, g', inp) \<Rightarrow> pending_draw g' = 0 \<and> pending_draw_type g' = None)"
  by code_simp

text \<open>
  C8. The claim: in every variant a Skip moves the turn pointer one step beyond the normal
  advance, two positions in all. In the No-Mercy programs it does. In the classic program
  \<^verbatim>\<open>handle_card_effect\<close> calls \<^verbatim>\<open>next_player\<close> twice for a Skip (around the message that one
  player was skipped) and \<^verbatim>\<open>play_turn\<close> calls it once more: three positions. Below, player 1
  (position 0) plays Red Skip on Red 5: with four players the pointer ends at position 3
  instead of 2, with two players it ends at the opponent, who is not skipped at all; the
  simulator ends at position 2 of four.
\<close>

theorem C8_classic_skip_advances_three:
  "(case van_play_turn (\<lambda>xs. xs) VRed (skip_game 4) of
      Inl e \<Rightarrow> False
    | Inr g' \<Rightarrow>
        last (vdiscard_pile g') = VCard VRed VSkip \<and> vcurrent_player_index g' = 3
        \<and> \<not> vgame_over g')
   \<and> (case van_play_turn (\<lambda>xs. xs) VRed (skip_game 2) of
      Inl e \<Rightarrow> False
    | Inr g' \<Rightarrow> last (vdiscard_pile g') = VCard VRed VSkip \<and> vcurrent_player_index g' = 1)
   \<and> (case sim_play_turn skip_ring of
      Inl e \<Rightarrow> False
    | Inr (over, g') \<Rightarrow>
        last (discard_pile g') = Card Action (Some Red) Skip \<and> current_player_index g' = 2)"
  by code_simp

text \<open>
  C5. The claim: every draw of \<open>n\<close> cards first recycles the discard pile when the deck holds
  fewer than 5 cards and then returns \<open>min n\<close> of the cards available, short only when deck
  and discard pile are both exhausted. \<^verbatim>\<open>Player.draw\<close> never recycles in any of the
  programs; recycling is a separate step before a turn. Below, the deck holds three cards
  and the discard pile ten: a draw of 5 returns three cards, and the turn that resolves the
  pending draw of 6 gives the player three cards and leaves the ten discards where they are.
\<close>

theorem C5_draw_does_not_recycle:
  "length (deck short_deck_game) = 3 \<and> length (discard_pile short_deck_game) = 10
   \<and> length (snd (snd (draw (hand (players short_deck_game ! 0)) (deck short_deck_game) 5))) = 3
   \<and> pending_draw short_deck_game = 6
   \<and> \<not> isl (sim_play_turn short_deck_game)
   \<and> length (hand (players (snd (projr (sim_play_turn short_deck_game))) ! 0)) = 1 + 3
   \<and> deck (snd (projr (sim_play_turn short_deck_game))) = []
   \<and> length (discard_pile (snd (projr (sim_play_turn short_deck_game)))) = 10"
  by code_simp

text \<open>
  C5, amended. \<^verbatim>\<open>Player.draw(deck, n)\<close> never recycles and never fails: it moves exactly
  \<open>min n |Deck|\<close> cards from the top of the deck to the end of the hand and returns them, so
  it returns fewer than \<open>n\<close> cards exactly when the deck itself holds fewer than \<open>n\<close>.
  Recycling is \<^verbatim>\<open>check_and_recycle_deck\<close>, run once before each turn: with fewer than 5
  cards in the deck and a non-empty discard pile it leaves the top card as the only
  discard, and with 5 or more cards in the deck it changes nothing.
\<close>

theorem C5_draw_returns_min_of_deck:
  "(case draw h d n of (h', d', drawn) \<Rightarrow>
      length drawn = min n (length d) \<and> h' = h @ drawn \<and> d' @ rev drawn = d
      \<and> (length drawn < n \<longleftrightarrow> length d < n))
   \<and> (length (deck g) < 5 \<and> discard_pile g \<noteq> [] \<longrightarrow>
        (case sim_check_and_recycle_deck shuffle g of
           Inl e \<Rightarrow> False
         | Inr g' \<Rightarrow> discard_pile g' = [last (discard_pile g)] \<and> players g' = players g))
   \<and> (5 \<le> length (deck g) \<longrightarrow> sim_check_and_recycle_deck shuffle g = Inr g)"
  using draw_facts [where h = h and d = d and n = n]
  by (simp add: sim_check_and_recycle_deck_def)

theorem C5_draw_returns_min_of_deck_witness:
  "length (deck short_deck_game) < 5 \<and> discard_pile short_deck_game \<noteq> []
   \<and> discard_pile (projr (sim_check_and_recycle_deck rev short_deck_game))
       = [Card Wild (Some Red) Draw6]
   \<and> 5 \<le> length (deck rot_game)
   \<and> sim_check_and_recycle_deck rev rot_game = Inr rot_game
   \<and> length (snd (snd (draw ([]::card list) small_deck 7))) = 5"
proof -
  have a: "length (deck short_deck_game) < 5 \<and> discard_pile short_deck_game \<noteq> []"
    by code_simp
  have b: "5 \<le> length (deck rot_game)"
    by code_simp
  have l: "last (discard_pile short_deck_game) = Card Wild (Some Red) Draw6"
    by code_simp
  have s: "length small_deck = 5"
    by code_simp
  from C5_draw_returns_min_of_deck
         [where h = "[]::card list" and d = small_deck and n = 7 and g = short_deck_game and shuffle = rev] a l
  have 1: "discard_pile (projr (sim_check_and_recycle_deck rev short_deck_game))
             = [Card Wild (Some Red) Draw6]"
    by (auto split: sum.splits)
  from C5_draw_returns_min_of_deck
         [where h = "[]::card list" and d = small_deck and n = 7 and g = rot_game and shuffle = rev] b
  have 2: "sim_check_and_recycle_deck rev rot_game = Inr rot_game"
    by blast
  from C5_draw_returns_min_of_deck
         [where h = "[]::card list" and d = small_deck and n = 7 and g = rot_game and shuffle = rev] s
  have 3: "length (snd (snd (draw ([]::card list) small_deck 7))) = 5"
    by (auto split: prod.splits)
  show ?thesis using a b 1 2 3 by blast
qed

text \<open>
  C9. Playing ReverseDraw4 makes the player at \<open>(current_index - direction) mod ring size\<close>,
  taken with the direction before the flip, draw four cards (as many as the deck holds, if
  fewer) and then flips the direction. The simulator picks the target with a formula that
  depends on the direction; for both directions it is the same player, so the three
  No-Mercy programs agree.
\<close>

theorem C9_reverse_draw4_target:
  assumes "ctype crd = Wild" and "cvalue crd = ReverseDraw4"
    and "current_player_index g < length (players g)"
    and "direction g = 1 \<or> direction g = - 1"
  shows "sim_handle_card_effects g crd = Inr (after_reverse_draw4 g)
       \<and> pl_handle_card_effects g crd = Inr (after_reverse_draw4 g)
       \<and> rl_handle_card_effects g crd = Inr (after_reverse_draw4 g)"
proof -
  have n: "length (players g) \<noteq> 0" using assms(3) by auto
  have pl: "pl_handle_card_effects g crd = Inr (after_reverse_draw4 g)"
    using assms(1,2) n
    by (simp add: pl_handle_card_effects_def ring_index_def draw_eq after_reverse_draw4_def
        claimed_target_def Let_def)
  have sim: "sim_handle_card_effects g crd = Inr (after_reverse_draw4 g)"
    using assms(4)
  proof
    assume "direction g = 1"
    then show ?thesis using assms(1,2) n
      by (simp add: sim_handle_card_effects_def ring_index_def draw_eq after_reverse_draw4_def
          claimed_target_def Let_def)
  next
    assume "direction g = - 1"
    then show ?thesis using assms(1,2) n
      by (simp add: sim_handle_card_effects_def ring_index_def draw_eq after_reverse_draw4_def
          claimed_target_def Let_def)
  qed
  show ?thesis using pl sim by (simp add: rl_handle_card_effects_def)
qed

theorem C9_reverse_draw4_target_witness:
  "ctype (Card Wild (Some Red) ReverseDraw4) = Wild
   \<and> cvalue (Card Wild (Some Red) ReverseDraw4) = ReverseDraw4
   \<and> current_player_index rot_game < length (players rot_game)
   \<and> direction rot_game = 1
   \<and> claimed_target rot_game = 1
   \<and> sim_handle_card_effects rot_game (Card Wild (Some Red) ReverseDraw4)
       = Inr (after_reverse_draw4 rot_game)
   \<and> pl_handle_card_effects rot_game (Card Wild (Some Red) ReverseDraw4)
       = Inr (after_reverse_draw4 rot_game)
   \<and> rl_handle_card_effects rot_game (Card Wild (Some Red) ReverseDraw4)
       = Inr (after_reverse_draw4 rot_game)
   \<and> length (hand (players (after_reverse_draw4 rot_game) ! 1)) = 2 + 4
   \<and> direction (after_reverse_draw4 rot_game) = - 1"
proof -
  have a: "ctype (Card Wild (Some Red) ReverseDraw4) = Wild"
    and b: "cvalue (Card Wild (Some Red) ReverseDraw4) = ReverseDraw4"
    by (simp_all add: Card_def)
  have c: "current_player_index rot_game < length (players rot_game)"
    and d: "direction rot_game = 1"
    by (simp_all add: rot_game_def mk_game_def)
  have e: "claimed_target rot_game = 1"
    by (simp add: claimed_target_def rot_game_def mk_game_def)
  have f: "length (hand (players (after_reverse_draw4 rot_game) ! 1)) = 2 + 4"
    and g: "direction (after_reverse_draw4 rot_game) = - 1"
    by (simp_all add: after_reverse_draw4_def e set_hand_def)
       (simp_all add: rot_game_def mk_game_def mk_player_def small_deck_def)
  from C9_reverse_draw4_target [OF a b c] d
  show ?thesis using a b c d e f g by simp
qed

text \<open>
  C10. The claim: after a value-0 rotation with at least two players every player holds the
  previous hand of the player \<open>direction\<close> positions earlier, the cards across all hands
  are the same multiset, and no player's hand size changes. The last part fails: the hands
  move, so a player's hand size becomes that of the player whose hand arrives. Below,
  player 1 holds one card and player 2 two; after the rotation player 1 holds two.
\<close>

theorem C10_rotation_changes_hand_sizes:
  "length (players rot_game) = 2
   \<and> length (hand (players rot_game ! 0)) = 1
   \<and> length (hand (players (switch_hands_in_cycle rot_game) ! 0)) = 2"
  by code_simp

text \<open>
  C10, amended. After a value-0 rotation with at least two players, every player holds the
  previous hand of the player \<open>direction\<close> positions earlier in the ring; the hands are the
  same multiset of hands, so the multiset of all cards across the hands and the multiset of
  hand sizes are unchanged (each hand moves intact).
\<close>

theorem C10_rotation_is_a_bijection:
  assumes "2 \<le> length (players g)"
  shows "length (players (switch_hands_in_cycle g)) = length (players g)
    \<and> (\<forall>i < length (players g).
          hand (players (switch_hands_in_cycle g) ! i)
            = hand (players g ! nat ((int i - direction g) mod int (length (players g)))))
    \<and> mset (map hand (players (switch_hands_in_cycle g))) = mset (map hand (players g))
    \<and> mset (concat (map hand (players (switch_hands_in_cycle g))))
         = mset (concat (map hand (players g)))
    \<and> mset (map (\<lambda>p. length (hand p)) (players (switch_hands_in_cycle g)))
         = mset (map (\<lambda>p. length (hand p)) (players g))"
proof -
  have m: "mset (map hand (players (switch_hands_in_cycle g))) = mset (map hand (players g))"
    by (simp add: cycle_hands [OF assms] mset_rotate_eq)
  have s: "mset (map length (map hand (players (switch_hands_in_cycle g))))
             = mset (map length (map hand (players g)))"
    using m by (metis mset_map)
  show ?thesis
    using m s mset_concat_perm [OF m] cycle_nth [OF assms]
    by (simp add: cycle_players_length comp_def)
qed

theorem C10_rotation_is_a_bijection_witness:
  "2 \<le> length (players rot_game)
   \<and> length (players (switch_hands_in_cycle rot_game)) = 2
   \<and> hand (players (switch_hands_in_cycle rot_game) ! 0) = hand (players rot_game ! 1)
   \<and> hand (players (switch_hands_in_cycle rot_game) ! 1) = hand (players rot_game ! 0)
   \<and> mset (map hand (players (switch_hands_in_cycle rot_game)))
       = mset (map hand (players rot_game))"
proof -
  have a: "2 \<le> length (players rot_game)"
    and l: "length (players rot_game) = 2" and d: "direction rot_game = 1"
    by (simp_all add: rot_game_def mk_game_def)
  have i0: "nat ((int 0 - 1) mod int 2) = 1" and i1: "nat ((int 1 - 1) mod int 2) = 0"
    by simp_all
  from C10_rotation_is_a_bijection [OF a]
  show ?thesis using a i0 i1 by (simp add: l d)
qed

text \<open>
  C7. The claim: the cards in the deck, the discard pile and the players' hands always add
  up to the initial deck size, because every operation, elimination included, only moves
  cards. Elimination does not: the removed player leaves the ring with the cards held, and
  nothing returns them to the deck or the discard pile. Below, the two-player state holds 31
  cards; player 1 draws a 25th card and is removed, and 6 cards are left.
\<close>

theorem C7_elimination_removes_cards:
  "total_cards (mercy_game 24) = 31
   \<and> \<not> isl (sim_play_turn (mercy_game 24))
   \<and> map pid (players (snd (projr (sim_play_turn (mercy_game 24))))) = [2]
   \<and> total_cards (snd (projr (sim_play_turn (mercy_game 24)))) = 6"
  by code_simp

text \<open>
  C7, amended. One call of the simulator's \<^verbatim>\<open>play_turn\<close> that returns (drawing, playing,
  stacking, DiscardColor, ColorRoulette, ReverseDraw4, hand rotation and exchange) leaves
  the number of cards in deck, discard pile and hands of the ring unchanged when the ring
  keeps its size; a call that eliminates a player shrinks the ring by exactly one and
  lowers the number by exactly the cards of the removed player.
\<close>

theorem C7_turn_conserves_cards:
  assumes "sim_play_turn g = Inr (over, g')"
  shows "(length (players g') = length (players g) \<longrightarrow> total_cards g' = total_cards g)
       \<and> (length (players g') \<noteq> length (players g) \<longrightarrow>
            Suc (length (players g')) = length (players g)
            \<and> total_cards g' + sim_removed_hand g = total_cards g)"
proof -
  let ?i = "current_player_index g"
  from assms have i: "?i < length (players g)"
    by (auto simp add: sim_play_turn_def split: if_splits)
  show ?thesis
  proof (cases "pending_draw g > 0")
    case True
    with assms i have "sim_pending_turn g ?i = Inr (over, g')"
      by (auto simp add: sim_play_turn_def Let_def split: if_splits)
    from total_pending [OF this i] show ?thesis by simp
  next
    case False
    with assms i obtain g2 where
      a: "sim_turn_actions g ?i = Inr g2" and e: "sim_turn_end g2 ?i = Inr (over, g')"
      by (auto simp add: sim_play_turn_def Let_def split: if_splits sum.splits)
    have r: "sim_removed_hand g = length (hand (players g2 ! current_player_index g2))"
      by (simp add: sim_removed_hand_def a)
    from total_actions [OF a i] total_end [OF e] show ?thesis by (simp add: r)
  qed
qed

theorem C7_turn_conserves_cards_witness:
  "sim_play_turn (mercy_game 24) = Inr (False, snd (projr (sim_play_turn (mercy_game 24))))
   \<and> Suc (length (players (snd (projr (sim_play_turn (mercy_game 24))))))
       = length (players (mercy_game 24))
   \<and> total_cards (snd (projr (sim_play_turn (mercy_game 24)))) + sim_removed_hand (mercy_game 24)
       = total_cards (mercy_game 24)
   \<and> sim_removed_hand (mercy_game 24) = 25
   \<and> sim_play_turn (mercy_game 3) = Inr (False, snd (projr (sim_play_turn (mercy_game 3))))
   \<and> length (players (snd (projr (sim_play_turn (mercy_game 3)))))
       = length (players (mercy_game 3))
   \<and> total_cards (snd (projr (sim_play_turn (mercy_game 3)))) = total_cards (mercy_game 3)"
proof -
  have a: "sim_play_turn (mercy_game 24)
             = Inr (False, snd (projr (sim_play_turn (mercy_game 24))))"
    by code_simp
  have b: "length (players (snd (projr (sim_play_turn (mercy_game 24)))))
             \<noteq> length (players (mercy_game 24))"
    by code_simp
  have r: "sim_removed_hand (mercy_game 24) = 25"
    by code_simp
  have c: "sim_play_turn (mercy_game 3) = Inr (False, snd (projr (sim_play_turn (mercy_game 3))))"
    by code_simp
  have d: "length (players (snd (projr (sim_play_turn (mercy_game 3)))))
             = length (players (mercy_game 3))"
    by code_simp
  from C7_turn_conserves_cards [OF a] b C7_turn_conserves_cards [OF c] d
  show ?thesis using a c r by simp
qed

end
